theory Spec2Isabelle
  imports Complex_Main
begin

section \<open>Values of the two input documents\<close>

text \<open>
  \<^verbatim>\<open>json.load\<close> turns a document into Python values: \<^verbatim>\<open>None\<close>, numbers, strings,
  lists and dicts. The type \<open>'n\<close> stands for the Python numbers (\<^verbatim>\<open>int\<close>, \<^verbatim>\<open>float\<close>, and
  \<^verbatim>\<open>bool\<close>, which is a subclass of \<^verbatim>\<open>int\<close>). No law of arithmetic is assumed of them: float
  addition is not associative, so every sum below is written in the order in which the
  program adds. Equality on \<open>'n\<close> is Python's \<^verbatim>\<open>==\<close>, which is what a dict compares number
  keys with. A string is a list of characters, and a dict is an association list in
  insertion order with distinct keys.
\<close>

datatype 'n json =
    JNull
  | JNum 'n
  | JStr string
  | JArr "'n json list"
  | JObj "(string \<times> 'n json) list"

datatype py_error =
    KeyError | TypeError | OverflowError | ValueError | MemoryError | OtherError

text \<open>The hashable values, which are the ones a dict accepts as a key.\<close>

datatype 'n key = KNone | KNum 'n | KStr string

fun py_hash :: "'n json \<Rightarrow> py_error + 'n key" where
  "py_hash JNull = Inr KNone"
| "py_hash (JNum n) = Inr (KNum n)"
| "py_hash (JStr s) = Inr (KStr s)"
| "py_hash (JArr xs) = Inl TypeError"
| "py_hash (JObj kvs) = Inl TypeError"

text \<open>\<^verbatim>\<open>for x in v\<close>: a list yields its elements, a dict its keys, a string its characters.\<close>

fun py_iter :: "'n json \<Rightarrow> py_error + 'n json list" where
  "py_iter (JArr xs) = Inr xs"
| "py_iter (JObj kvs) = Inr (map (\<lambda>kv. JStr (fst kv)) kvs)"
| "py_iter (JStr s) = Inr (map (\<lambda>c. JStr [c]) s)"
| "py_iter JNull = Inl TypeError"
| "py_iter (JNum n) = Inl TypeError"

text \<open>\<^verbatim>\<open>v[name]\<close> with a string \<open>name\<close>: only a dict can be subscripted by a string.\<close>

fun py_getitem :: "'n json \<Rightarrow> string \<Rightarrow> py_error + 'n json" where
  "py_getitem (JObj kvs) name = (case map_of kvs name of None \<Rightarrow> Inl KeyError | Some v \<Rightarrow> Inr v)"
| "py_getitem JNull name = Inl TypeError"
| "py_getitem (JNum n) name = Inl TypeError"
| "py_getitem (JStr s) name = Inl TypeError"
| "py_getitem (JArr xs) name = Inl TypeError"

text \<open>\<^verbatim>\<open>d[k] = v\<close>: a key already present keeps its position, a new key goes last.\<close>

fun dict_set :: "('k \<times> 'v) list \<Rightarrow> 'k \<Rightarrow> 'v \<Rightarrow> ('k \<times> 'v) list" where
  "dict_set [] k v = [(k, v)]"
| "dict_set ((k', v') # d) k v = (if k' = k then (k', v) # d else (k', v') # dict_set d k v)"

section \<open>What the interpreter does with numbers\<close>

text \<open>
  Python's \<^verbatim>\<open>x + y\<close> and \<^verbatim>\<open>x * y\<close> on numbers return the sum and the product, written
  \<open>x + y\<close> and \<open>x * y\<close> here, unless one operand is a float and the other an int too large
  to convert to a float: then they raise \<^verbatim>\<open>OverflowError\<close>. The first two fields say when
  that happens. With an operand that is not a number, \<^verbatim>\<open>total_cost += item_price * quantity\<close>
  always raises: \<^verbatim>\<open>TypeError\<close>, or \<^verbatim>\<open>OverflowError\<close> or \<^verbatim>\<open>MemoryError\<close> when it is a string or a
  list repeated too many times; the third field gives the exception. The conversions of
  a number to text can raise as well: \<^verbatim>\<open>str\<close> (the f-string without a format) raises
  \<^verbatim>\<open>ValueError\<close> on an int of more than 4300 digits, and the format \<^verbatim>\<open>.2f\<close> raises
  \<^verbatim>\<open>OverflowError\<close> on an int too large for a float. The type \<open>'t\<close> is that of the readings of
  the clock, which are floats: their difference and its format \<^verbatim>\<open>.6f\<close> never raise.
\<close>

record ('n, 't) python =
  add_overflows :: "'n \<Rightarrow> 'n \<Rightarrow> bool"
  mul_overflows :: "'n \<Rightarrow> 'n \<Rightarrow> bool"
  operand_error :: "'n json \<Rightarrow> 'n json \<Rightarrow> py_error"
  py_str :: "'n \<Rightarrow> py_error + string"
  fmt_2f :: "'n \<Rightarrow> py_error + string"
  fmt_6f :: "'t \<Rightarrow> string"

text \<open>The f-string \<^verbatim>\<open>f'{product_sold}'\<close> of a key.\<close>

definition str_key :: "('n, 't) python \<Rightarrow> 'n key \<Rightarrow> py_error + string" where
  "str_key py k = (case k of KStr s \<Rightarrow> Inr s | KNum n \<Rightarrow> py_str py n | KNone \<Rightarrow> Inr ''None'')"

definition warning_text :: "string \<Rightarrow> string" where
  "warning_text product =
     ''Warning: Product ID '' @ [CHR 0x27] @ product @ [CHR 0x27]
       @ '' not found in the price catalogue.''"

definition warning_message :: "('n, 't) python \<Rightarrow> 'n key \<Rightarrow> py_error + string" where
  "warning_message py product_sold =
     (case str_key py product_sold of Inl e \<Rightarrow> Inl e | Inr s \<Rightarrow> Inr (warning_text s))"

section \<open>compute\_total\_cost\<close>

text \<open>
  The dict comprehension of lines 61-62,
  \<^verbatim>\<open>{item['title']: item['price'] for item in price_catalogue}\<close>, over the items that are
  left and the dict built so far.
\<close>

fun price_catalogue_dict ::
  "'n json list \<Rightarrow> ('n key \<times> 'n json) list \<Rightarrow> py_error + ('n key \<times> 'n json) list" where
  "price_catalogue_dict [] d = Inr d"
| "price_catalogue_dict (item # items) d =
     (case py_getitem item ''title'' of
        Inl e \<Rightarrow> Inl e
      | Inr title \<Rightarrow>
          (case py_getitem item ''price'' of
             Inl e \<Rightarrow> Inl e
           | Inr price \<Rightarrow>
               (case py_hash title of
                  Inl e \<Rightarrow> Inl e
                | Inr k \<Rightarrow> price_catalogue_dict items (dict_set d k price))))"

text \<open>
  The local variables of the function, and \<open>printed\<close>: the warnings printed so far, one
  text for each \<^verbatim>\<open>print\<close> of line 80.
\<close>

record 'n totals =
  total_cost :: 'n
  total_quantity :: 'n
  unitary_cost :: "('n key \<times> 'n \<times> 'n) list"
  printed :: "string list"

text \<open>
  The body of the loop of lines 64-81. A raise leaves the state as it was: the model
  returns none, as nothing reads the state after an exception but the warnings already
  printed.
\<close>

definition sale_step ::
  "('n::{zero,plus,times}, 't) python \<Rightarrow> ('n key \<times> 'n json) list \<Rightarrow> 'n json \<Rightarrow> 'n totals
     \<Rightarrow> py_error + 'n totals" where
  "sale_step py d sale st =
     (case py_getitem sale ''Product'' of
        Inl e \<Rightarrow> Inl e
      | Inr product_sold \<Rightarrow>
          (case py_getitem sale ''Quantity'' of
             Inl e \<Rightarrow> Inl e
           | Inr quantity \<Rightarrow>
               (case py_hash product_sold of
                  Inl e \<Rightarrow> Inl e
                | Inr k \<Rightarrow>
                    (case map_of d k of
                       None \<Rightarrow>
                         (case warning_message py k of
                            Inl e \<Rightarrow> Inl e
                          | Inr message \<Rightarrow> Inr (st\<lparr>printed := printed st @ [message]\<rparr>))
                     | Some item_price \<Rightarrow>
                         (case (item_price, quantity) of
                            (JNum p, JNum q) \<Rightarrow>
                              if mul_overflows py p q
                                 \<or> add_overflows py (total_cost st) (p * q)
                                 \<or> add_overflows py (total_quantity st) q
                              then Inl OverflowError
                              else
                                (case map_of (unitary_cost st) k of
                                   None \<Rightarrow>
                                     Inr (st\<lparr>total_cost := total_cost st + p * q,
                                             total_quantity := total_quantity st + q,
                                             unitary_cost :=
                                               dict_set (unitary_cost st) k (q, p * q)\<rparr>)
                                 | Some (q0, c0) \<Rightarrow>
                                     if add_overflows py q0 q \<or> add_overflows py c0 (p * q)
                                     then Inl OverflowError
                                     else
                                       Inr (st\<lparr>total_cost := total_cost st + p * q,
                                               total_quantity := total_quantity st + q,
                                               unitary_cost :=
                                                 dict_set (unitary_cost st) k
                                                   (q0 + q, c0 + p * q)\<rparr>))
                          | _ \<Rightarrow> Inl (operand_error py item_price quantity))))))"

text \<open>The loop: it stops at the first exception, with the state reached so far.\<close>

fun sales_loop ::
  "('n::{zero,plus,times}, 't) python \<Rightarrow> ('n key \<times> 'n json) list \<Rightarrow> 'n json list \<Rightarrow> 'n totals
     \<Rightarrow> 'n totals \<times> py_error option" where
  "sales_loop py d [] st = (st, None)"
| "sales_loop py d (sale # sales) st =
     (case sale_step py d sale st of
        Inl e \<Rightarrow> (st, Some e)
      | Inr st' \<Rightarrow> sales_loop py d sales st')"

definition init_totals :: "'n::{zero,plus,times} totals" where
  "init_totals = \<lparr>total_cost = 0, total_quantity = 0, unitary_cost = [], printed = []\<rparr>"

text \<open>
  The function returns the warnings it printed, in order, and either the exception
  raised or the tuple \<^verbatim>\<open>(total_cost, total_quantity, unitary_cost)\<close>.
\<close>

definition compute_total_cost ::
  "('n::{zero,plus,times}, 't) python \<Rightarrow> 'n json \<Rightarrow> 'n json
     \<Rightarrow> string list \<times> (py_error + 'n \<times> 'n \<times> ('n key \<times> 'n \<times> 'n) list)" where
  "compute_total_cost py price_catalogue sales_record =
     (case py_iter price_catalogue of
        Inl e \<Rightarrow> ([], Inl e)
      | Inr items \<Rightarrow>
          (case price_catalogue_dict items [] of
             Inl e \<Rightarrow> ([], Inl e)
           | Inr d \<Rightarrow>
               (case py_iter sales_record of
                  Inl e \<Rightarrow> ([], Inl e)
                | Inr sales \<Rightarrow>
                    (case sales_loop py d sales init_totals of
                       (st, Some e) \<Rightarrow> (printed st, Inl e)
                     | (st, None) \<Rightarrow>
                         (printed st,
                          Inr (total_cost st, total_quantity st, unitary_cost st))))))"

section \<open>load\_json\_file and main\<close>

text \<open>
  What happens when \<^verbatim>\<open>load_json_file\<close> opens a path and parses its content:
  \<^verbatim>\<open>open\<close> raises \<^verbatim>\<open>FileNotFoundError\<close> (\<open>Missing\<close>); \<^verbatim>\<open>json.load\<close> raises \<^verbatim>\<open>JSONDecodeError\<close>
  (\<open>Malformed\<close>); either raises another exception, which the function does not catch
  (\<open>Unreadable\<close>: \<^verbatim>\<open>IsADirectoryError\<close>, \<^verbatim>\<open>NotADirectoryError\<close>, \<^verbatim>\<open>PermissionError\<close>,
  \<^verbatim>\<open>UnicodeDecodeError\<close>); or \<^verbatim>\<open>json.load\<close> returns a value (\<open>Document\<close>).
\<close>

datatype 'n source = Missing | Unreadable | Malformed | Document "'n json"

text \<open>
  The effects of a run, in order: a file opened for reading, a call of \<^verbatim>\<open>print\<close> with its
  argument, the call of \<^verbatim>\<open>compute_total_cost\<close>, a file written with its content, and the
  exception that ends the run when none catches it. The display stream and the file are
  taken to accept every text.
\<close>

datatype event =
    Open_read string
  | Print string
  | Aggregate
  | Write_file string string
  | Raise py_error

definition not_found_message :: "string \<Rightarrow> string" where
  "not_found_message filename = ''Error: File '' @ [CHR 0x27] @ filename @ [CHR 0x27] @ '' not found.''"

definition invalid_json_message :: "string \<Rightarrow> string" where
  "invalid_json_message filename =
     ''Error: Invalid JSON format in '' @ [CHR 0x27] @ filename @ [CHR 0x27] @ ''.''"

text \<open>\<^verbatim>\<open>load_json_file\<close> returns \<^verbatim>\<open>None\<close>, which is \<open>JNull\<close>, after either message.\<close>

definition load_json_file ::
  "(string \<Rightarrow> 'n source) \<Rightarrow> string \<Rightarrow> event list \<times> (py_error + 'n json)" where
  "load_json_file fs filename =
     (case fs filename of
        Document v \<Rightarrow> ([Open_read filename], Inr v)
      | Missing \<Rightarrow> ([Open_read filename, Print (not_found_message filename)], Inr JNull)
      | Malformed \<Rightarrow> ([Open_read filename, Print (invalid_json_message filename)], Inr JNull)
      | Unreadable \<Rightarrow> ([Open_read filename], Inl OtherError))"

definition usage_message :: string where
  "usage_message = ''Usage: python computeSales.py priceCatalogue.json salesRecord.json''"

text \<open>The alignments \<^verbatim>\<open>>30\<close>, \<^verbatim>\<open><30\<close> and \<^verbatim>\<open>^30\<close> of the format language: they pad, never cut.\<close>

definition rjust :: "nat \<Rightarrow> string \<Rightarrow> string" where
  "rjust w s = replicate (w - length s) CHR '' '' @ s"

definition ljust :: "nat \<Rightarrow> string \<Rightarrow> string" where
  "ljust w s = s @ replicate (w - length s) CHR '' ''"

definition center :: "nat \<Rightarrow> string \<Rightarrow> string" where
  "center w s =
     replicate ((w - length s) div 2) CHR '' '' @ s
       @ replicate ((w - length s) - (w - length s) div 2) CHR '' ''"

definition newline :: string where
  "newline = [CHR 0x0A]"

definition line_sep_str :: string where
  "line_sep_str =
     ''+'' @ replicate 32 CHR ''-'' @ ''+'' @ replicate 32 CHR ''-'' @ ''+''
       @ replicate 32 CHR ''-'' @ ''+'' @ newline"

definition header_row :: string where
  "header_row =
     ''| '' @ center 30 ''Product'' @ '' | '' @ center 30 ''Quantity'' @ '' | ''
       @ center 30 ''Total Unit Cost'' @ '' |'' @ newline"

text \<open>The layout of a product row and of the totals row, given the texts of their cells.\<close>

definition product_row_text :: "string \<Rightarrow> string \<Rightarrow> string \<Rightarrow> string" where
  "product_row_text product quantity cost =
     ''| '' @ rjust 30 product @ '' | '' @ rjust 30 quantity @ '' | ''
       @ rjust 30 (''$'' @ cost) @ '' |'' @ newline"

definition totals_row_text :: "string \<Rightarrow> string \<Rightarrow> string" where
  "totals_row_text quantity cost =
     ''| '' @ ljust 30 ''Total Cost of Sales'' @ '' | '' @ rjust 30 quantity @ '' | ''
       @ rjust 30 (''$'' @ cost) @ '' |'' @ newline"

text \<open>The f-strings of lines 124-126 and 128-130: the cells are converted from left to right.\<close>

definition product_row ::
  "('n, 't) python \<Rightarrow> 'n key \<times> 'n \<times> 'n \<Rightarrow> py_error + string" where
  "product_row py entry =
     (case entry of (product_sold, quantity, cost) \<Rightarrow>
        (case str_key py product_sold of
           Inl e \<Rightarrow> Inl e
         | Inr ps \<Rightarrow>
             (case py_str py quantity of
                Inl e \<Rightarrow> Inl e
              | Inr qs \<Rightarrow>
                  (case fmt_2f py cost of
                     Inl e \<Rightarrow> Inl e
                   | Inr cs \<Rightarrow> Inr (product_row_text ps qs cs)))))"

definition totals_row :: "('n, 't) python \<Rightarrow> 'n \<Rightarrow> 'n \<Rightarrow> py_error + string" where
  "totals_row py t_amount t_cost =
     (case py_str py t_amount of
        Inl e \<Rightarrow> Inl e
      | Inr qs \<Rightarrow>
          (case fmt_2f py t_cost of
             Inl e \<Rightarrow> Inl e
           | Inr cs \<Rightarrow> Inr (totals_row_text qs cs)))"

definition elapsed_row :: "('n, 't) python \<Rightarrow> 't \<Rightarrow> string" where
  "elapsed_row py elapsed_time =
     ''| '' @ ljust 30 ''Time Elapsed'' @ '' | ''
       @ rjust 30 (fmt_6f py elapsed_time @ '' seconds'') @ '' |''
       @ replicate 32 CHR ''x'' @ ''|'' @ newline"

text \<open>The loop of lines 123-126: the rows of the entries, in the order of the dict.\<close>

fun product_rows ::
  "('n, 't) python \<Rightarrow> ('n key \<times> 'n \<times> 'n) list \<Rightarrow> py_error + string list" where
  "product_rows py [] = Inr []"
| "product_rows py (entry # entries) =
     (case product_row py entry of
        Inl e \<Rightarrow> Inl e
      | Inr row \<Rightarrow>
          (case product_rows py entries of
             Inl e \<Rightarrow> Inl e
           | Inr rows \<Rightarrow> Inr (row # rows)))"

text \<open>The rows that lines 118-135 append to \<^verbatim>\<open>report_str\<close>, in order.\<close>

definition report_rows :: "string list \<Rightarrow> string \<Rightarrow> string \<Rightarrow> string list" where
  "report_rows rows totals elapsed =
     [line_sep_str, header_row, line_sep_str] @ rows
       @ [line_sep_str, totals, line_sep_str, elapsed, line_sep_str]"

definition report_str ::
  "('n, 't) python \<Rightarrow> 'n \<Rightarrow> 'n \<Rightarrow> ('n key \<times> 'n \<times> 'n) list \<Rightarrow> 't \<Rightarrow> py_error + string" where
  "report_str py t_cost t_amount u_cost elapsed_time =
     (case product_rows py u_cost of
        Inl e \<Rightarrow> Inl e
      | Inr rows \<Rightarrow>
          (case totals_row py t_amount t_cost of
             Inl e \<Rightarrow> Inl e
           | Inr totals \<Rightarrow>
               Inr (concat (report_rows rows totals (elapsed_row py elapsed_time)))))"

text \<open>
  \<^verbatim>\<open>main\<close>, given \<^verbatim>\<open>sys.argv\<close>, the file system and the two readings of the clock. The
  result is the sequence of its effects.
\<close>

definition main ::
  "('n::{zero,plus,times}, 't::minus) python \<Rightarrow> string list \<Rightarrow> (string \<Rightarrow> 'n source) \<Rightarrow> 't \<Rightarrow> 't
     \<Rightarrow> event list" where
  "main py argv fs start_time end_time =
     (if length argv \<noteq> 3 then [Print usage_message]
      else
        (case load_json_file fs (argv ! 1) of
           (tr1, Inl e) \<Rightarrow> tr1 @ [Raise e]
         | (tr1, Inr price_catalogue) \<Rightarrow>
             if price_catalogue = JNull then tr1
             else
               (case load_json_file fs (argv ! 2) of
                  (tr2, Inl e) \<Rightarrow> tr1 @ tr2 @ [Raise e]
                | (tr2, Inr sales_record) \<Rightarrow>
                    if sales_record = JNull then tr1 @ tr2
                    else
                      (case compute_total_cost py price_catalogue sales_record of
                         (ws, Inl e) \<Rightarrow> tr1 @ tr2 @ [Aggregate] @ map Print ws @ [Raise e]
                       | (ws, Inr (t_cost, t_amount, u_cost)) \<Rightarrow>
                           (case report_str py t_cost t_amount u_cost
                                   (end_time - start_time) of
                              Inl e \<Rightarrow>
                                tr1 @ tr2 @ [Aggregate] @ map Print ws @ [Raise e]
                            | Inr report \<Rightarrow>
                                tr1 @ tr2 @ [Aggregate] @ map Print ws
                                  @ [Print report,
                                     Write_file ''SalesResults.txt'' report])))))"

text \<open>What a run leaves on the display stream: \<^verbatim>\<open>print\<close> ends its argument with a newline.\<close>

fun stdout_of :: "event list \<Rightarrow> string" where
  "stdout_of [] = []"
| "stdout_of (Print s # tr) = s @ newline @ stdout_of tr"
| "stdout_of (e # tr) = stdout_of tr"

text \<open>The content a run leaves in a file, \<open>None\<close> when the run never writes it.\<close>

fun file_written :: "string \<Rightarrow> event list \<Rightarrow> string option" where
  "file_written name [] = None"
| "file_written name (Write_file name' s # tr) =
     (case file_written name tr of
        Some s' \<Rightarrow> Some s'
      | None \<Rightarrow> if name' = name then Some s else None)"
| "file_written name (e # tr) = file_written name tr"

section \<open>The input format and the quantities the properties speak of\<close>

text \<open>
  A catalogue is an array of objects that have at least a string \<open>title\<close> and a number
  \<open>price\<close>; a sales record is an array of objects that have at least a string \<open>Product\<close>
  and a number \<open>Quantity\<close>. The functions below read a document of that format as the list
  of its (title, price) or (product, quantity) pairs, and give \<open>None\<close> for any other
  document.
\<close>

fun entry_of :: "'n json \<Rightarrow> (string \<times> 'n) option" where
  "entry_of (JObj kvs) =
     (case map_of kvs ''title'' of
        Some (JStr t) \<Rightarrow> (case map_of kvs ''price'' of Some (JNum p) \<Rightarrow> Some (t, p) | _ \<Rightarrow> None)
      | _ \<Rightarrow> None)"
| "entry_of _ = None"

fun sale_of :: "'n json \<Rightarrow> (string \<times> 'n) option" where
  "sale_of (JObj kvs) =
     (case map_of kvs ''Product'' of
        Some (JStr p) \<Rightarrow> (case map_of kvs ''Quantity'' of Some (JNum q) \<Rightarrow> Some (p, q) | _ \<Rightarrow> None)
      | _ \<Rightarrow> None)"
| "sale_of _ = None"

fun catalogue_of :: "'n json \<Rightarrow> (string \<times> 'n) list option" where
  "catalogue_of (JArr items) = those (map entry_of items)"
| "catalogue_of _ = None"

fun sales_of :: "'n json \<Rightarrow> (string \<times> 'n) list option" where
  "sales_of (JArr items) = those (map sale_of items)"
| "sales_of _ = None"

text \<open>The price of a title: that of the last catalogue entry with the title.\<close>

definition lookup_price :: "(string \<times> 'n) list \<Rightarrow> string \<Rightarrow> 'n option" where
  "lookup_price C t = map_of (rev C) t"

text \<open>The matched sales: those whose product has a price, in the order of the input.\<close>

definition matched_sales :: "(string \<times> 'n) list \<Rightarrow> (string \<times> 'n) list \<Rightarrow> (string \<times> 'n) list" where
  "matched_sales C S = filter (\<lambda>s. lookup_price C (fst s) \<noteq> None) S"

definition unmatched_products :: "(string \<times> 'n) list \<Rightarrow> (string \<times> 'n) list \<Rightarrow> string list" where
  "unmatched_products C S = filter (\<lambda>p. lookup_price C p = None) (map fst S)"

text \<open>The cost of a line: price times quantity.\<close>

definition line_cost :: "(string \<times> 'n) list \<Rightarrow> string \<times> 'n \<Rightarrow> 'n::{zero,plus,times}" where
  "line_cost C s = (case lookup_price C (fst s) of Some price \<Rightarrow> price * snd s | None \<Rightarrow> 0)"

text \<open>
  Sums, taken from left to right. \<open>py_sum\<close> starts from \<open>0\<close>, as Python's \<^verbatim>\<open>sum\<close> and the
  two totals do; \<open>left_sum\<close> starts from the first element, as an entry of
  \<^verbatim>\<open>unitary_cost\<close> does.
\<close>

definition py_sum :: "'n::{zero,plus} list \<Rightarrow> 'n" where
  "py_sum xs = foldl (+) 0 xs"

fun left_sum :: "'n::{zero,plus} list \<Rightarrow> 'n" where
  "left_sum [] = 0"
| "left_sum (x # xs) = foldl (+) x xs"

text \<open>The elements of a list without repetition, each at its first occurrence.\<close>

definition first_occurrences :: "'a list \<Rightarrow> 'a list" where
  "first_occurrences xs = rev (remdups (rev xs))"

text \<open>The lines of one product.\<close>

definition lines_of :: "string \<Rightarrow> (string \<times> 'n) list \<Rightarrow> (string \<times> 'n) list" where
  "lines_of p S = filter (\<lambda>s. fst s = p) S"

text \<open>The entry of a product: its summed quantity and its summed cost.\<close>

definition aggregate_of ::
  "(string \<times> 'n) list \<Rightarrow> (string \<times> 'n) list \<Rightarrow> string \<Rightarrow> 'n::{zero,plus,times} \<times> 'n" where
  "aggregate_of C S p =
     (left_sum (map snd (lines_of p S)), left_sum (map (line_cost C) (lines_of p S)))"

text \<open>The state of the loop after the sales \<open>S\<close>, in closed form, when nothing raised.\<close>

definition summary_of ::
  "(string \<times> 'n) list \<Rightarrow> (string \<times> 'n) list \<Rightarrow> 'n::{zero,plus,times} totals" where
  "summary_of C S =
     \<lparr>total_cost = py_sum (map (line_cost C) (matched_sales C S)),
      total_quantity = py_sum (map snd (matched_sales C S)),
      unitary_cost =
        map (\<lambda>p. (KStr p, aggregate_of C (matched_sales C S) p))
          (first_occurrences (map fst (matched_sales C S))),
      printed = map warning_text (unmatched_products C S)\<rparr>"

text \<open>
  When the arithmetic raises nothing. \<open>sum_ok\<close>: no addition of the running sum from \<open>a\<close>
  over the list raises; \<open>left_sum_ok\<close>: the same from the first element. \<open>no_overflow\<close>:
  no multiplication of a price by a quantity and no addition raises in the sums of the
  matched sales, which are the two totals and, for each product, the two sums of its
  entry.
\<close>

fun sum_ok :: "('n \<Rightarrow> 'n \<Rightarrow> bool) \<Rightarrow> 'n::plus \<Rightarrow> 'n list \<Rightarrow> bool" where
  "sum_ok raises a [] = True"
| "sum_ok raises a (x # xs) = (\<not> raises a x \<and> sum_ok raises (a + x) xs)"

fun left_sum_ok :: "('n \<Rightarrow> 'n \<Rightarrow> bool) \<Rightarrow> 'n::plus list \<Rightarrow> bool" where
  "left_sum_ok raises [] = True"
| "left_sum_ok raises (x # xs) = sum_ok raises x xs"

definition line_overflows ::
  "('n, 't) python \<Rightarrow> (string \<times> 'n) list \<Rightarrow> string \<times> 'n \<Rightarrow> bool" where
  "line_overflows py C s =
     (case lookup_price C (fst s) of Some price \<Rightarrow> mul_overflows py price (snd s) | None \<Rightarrow> False)"

definition entry_ok ::
  "('n::{zero,plus,times}, 't) python \<Rightarrow> (string \<times> 'n) list \<Rightarrow> (string \<times> 'n) list \<Rightarrow> string \<Rightarrow> bool" where
  "entry_ok py C S p =
     (left_sum_ok (add_overflows py) (map snd (lines_of p S))
      \<and> left_sum_ok (add_overflows py) (map (line_cost C) (lines_of p S)))"

definition no_overflow ::
  "('n::{zero,plus,times}, 't) python \<Rightarrow> (string \<times> 'n) list \<Rightarrow> (string \<times> 'n) list \<Rightarrow> bool" where
  "no_overflow py C S =
     (list_all (\<lambda>s. \<not> line_overflows py C s) (matched_sales C S)
      \<and> sum_ok (add_overflows py) 0 (map (line_cost C) (matched_sales C S))
      \<and> sum_ok (add_overflows py) 0 (map snd (matched_sales C S))
      \<and> list_all (entry_ok py C (matched_sales C S))
            (first_occurrences (map fst (matched_sales C S))))"

text \<open>When the conversions to text that the report needs raise nothing.\<close>

definition converts ::
  "('n, 't) python \<Rightarrow> 'n \<Rightarrow> 'n \<Rightarrow> ('n key \<times> 'n \<times> 'n) list \<Rightarrow> bool" where
  "converts py t_cost t_amount u_cost =
     (list_all (\<lambda>entry. case entry of (k, q, c) \<Rightarrow>
          \<not> isl (str_key py k) \<and> \<not> isl (py_str py q) \<and> \<not> isl (fmt_2f py c)) u_cost
      \<and> \<not> isl (py_str py t_amount) \<and> \<not> isl (fmt_2f py t_cost))"

text \<open>The dict that the comprehension builds from a catalogue of the format above.\<close>

definition typed_dict ::
  "('n key \<times> 'n json) list \<Rightarrow> (string \<times> 'n) list \<Rightarrow> ('n key \<times> 'n json) list" where
  "typed_dict d C = foldl (\<lambda>d e. dict_set d (KStr (fst e)) (JNum (snd e))) d C"

section \<open>Examples\<close>

text \<open>
  An interpreter for the examples. Its numbers are rationals: one with an integral value
  is an int and any other a float. Sums and products are exact, which they are in Python
  for the numbers of the examples. An int is too large for a float from
  \<open>2 ^ 1024 - 2 ^ 970\<close> on, and \<^verbatim>\<open>str\<close> refuses an int from \<open>10 ^ 4300\<close> on.
\<close>

definition is_int :: "rat \<Rightarrow> bool" where
  "is_int r = (of_int \<lfloor>r\<rfloor> = r)"

definition beyond_double :: "rat \<Rightarrow> bool" where
  "beyond_double r = (is_int r \<and> 2 ^ 1024 - 2 ^ 970 \<le> \<bar>r\<bar>)"

definition float_meets_large_int :: "rat \<Rightarrow> rat \<Rightarrow> bool" where
  "float_meets_large_int x y =
     ((\<not> is_int x \<and> beyond_double y) \<or> (beyond_double x \<and> \<not> is_int y))"

fun digits :: "nat \<Rightarrow> string" where
  "digits n = (if n < 10 then [char_of (48 + n)] else digits (n div 10) @ [char_of (48 + n mod 10)])"

declare digits.simps [simp del]

definition fixed_point :: "nat \<Rightarrow> rat \<Rightarrow> string" where
  "fixed_point d r =
     (let n = nat \<lfloor>\<bar>r\<bar> * 10 ^ d + 1 / 2\<rfloor> in
        (if r < 0 then ''-'' else []) @ digits (n div 10 ^ d) @ ''.''
          @ replicate (d - length (digits (n mod 10 ^ d))) CHR ''0'' @ digits (n mod 10 ^ d))"

definition str_limit :: rat where
  "str_limit = 10 ^ 4300"

definition example_python :: "(rat, rat) python" where
  "example_python =
     \<lparr>add_overflows = float_meets_large_int,
      mul_overflows = float_meets_large_int,
      operand_error = (\<lambda>item_price quantity. TypeError),
      py_str = (\<lambda>r. if is_int r
                      then (if str_limit \<le> \<bar>r\<bar> then Inl ValueError
                            else Inr ((if r < 0 then ''-'' else []) @ digits (nat \<bar>\<lfloor>r\<rfloor>\<bar>)))
                      else Inr (fixed_point 1 r)),
      fmt_2f = (\<lambda>r. if beyond_double r then Inl OverflowError else Inr (fixed_point 2 r)),
      fmt_6f = fixed_point 6\<rparr>"

text \<open>
  The example of the specification: apples at 2 and pens at 1.5; three apples, two pens
  and one product that the catalogue does not have.
\<close>

definition example_catalogue :: "rat json" where
  "example_catalogue =
     JArr [JObj [(''title'', JStr ''Apple''), (''price'', JNum 2)],
           JObj [(''title'', JStr ''Pen''), (''price'', JNum (3 / 2))]]"

definition example_sales :: "rat json" where
  "example_sales =
     JArr [JObj [(''Product'', JStr ''Apple''), (''Quantity'', JNum 3)],
           JObj [(''Product'', JStr ''Pen''), (''Quantity'', JNum 2)],
           JObj [(''Product'', JStr ''Ghost''), (''Quantity'', JNum 1)]]"

text \<open>More examples: a product sold twice, a title listed twice, and only unmatched sales.\<close>

definition example_sales_repeated :: "rat json" where
  "example_sales_repeated =
     JArr [JObj [(''Product'', JStr ''Pen''), (''Quantity'', JNum 2)],
           JObj [(''Product'', JStr ''Ghost''), (''Quantity'', JNum 1)],
           JObj [(''Product'', JStr ''Apple''), (''Quantity'', JNum 3)],
           JObj [(''Product'', JStr ''Pen''), (''Quantity'', JNum 4)]]"


definition example_sales_unmatched :: "rat json list" where
  "example_sales_unmatched =
     [JObj [(''Product'', JStr ''Ghost''), (''Quantity'', JNum 1)],
      JObj [(''Product'', JStr ''Shadow''), (''Quantity'', JNum 7)]]"

text \<open>
  A quantity beyond the range of a double, which the price 1.5 cannot multiply: alone,
  before an unmatched sale, after a sale of another product, after a sale of the same
  product, and under a catalogue that lists the product twice.
\<close>

definition pen_catalogue :: "rat json" where
  "pen_catalogue = JArr [JObj [(''title'', JStr ''Pen''), (''price'', JNum (3 / 2))]]"


definition large_quantity :: rat where
  "large_quantity = 10 ^ 400"

definition large_sale :: "rat json" where
  "large_sale = JObj [(''Product'', JStr ''Pen''), (''Quantity'', JNum large_quantity)]"

definition ghost_sale :: "rat json" where
  "ghost_sale = JObj [(''Product'', JStr ''Ghost''), (''Quantity'', JNum 1)]"

definition apple_sale :: "rat json" where
  "apple_sale = JObj [(''Product'', JStr ''Apple''), (''Quantity'', JNum 3)]"

definition pen_sale :: "rat json" where
  "pen_sale = JObj [(''Product'', JStr ''Pen''), (''Quantity'', JNum 2)]"

text \<open>
  Runs for the examples: the command line, and file systems that hold the two example
  documents, a directory in place of the catalogue, a catalogue entry without a price,
  no sales record, the sales record with a product sold twice, and one with the large
  quantity.
\<close>

definition example_argv :: "string list" where
  "example_argv = [''computeSales.py'', ''priceCatalogue.json'', ''salesRecord.json'']"

definition example_files :: "string \<Rightarrow> rat source" where
  "example_files path =
     (if path = ''priceCatalogue.json'' then Document example_catalogue
      else if path = ''salesRecord.json'' then Document example_sales
      else Missing)"

definition example_files_directory :: "string \<Rightarrow> rat source" where
  "example_files_directory path =
     (if path = ''.'' then Unreadable
      else if path = ''salesRecord.json'' then Document example_sales
      else Missing)"


definition example_files_no_sales :: "string \<Rightarrow> rat source" where
  "example_files_no_sales path =
     (if path = ''priceCatalogue.json'' then Document example_catalogue else Missing)"



definition example_report :: string where
  "example_report =
     (case report_str example_python 9 5 [(KStr ''Apple'', 3, 6), (KStr ''Pen'', 2, 3)] 0 of
        Inr report \<Rightarrow> report
      | Inl e \<Rightarrow> [])"



section \<open>The argument-count guard\<close>

text \<open>
  C8. With any number of command-line arguments other than two (\<^verbatim>\<open>sys.argv\<close>, which
  counts the program's name, has a length other than 3), the run is the single effect of
  printing the usage message: no file is opened and none is written.
\<close>

theorem usage_on_wrong_argument_count:
  "length argv \<noteq> 3 \<Longrightarrow> main py argv fs start_time end_time = [Print usage_message]"
  by (simp add: main_def)

theorem usage_on_wrong_argument_count_witness:
  "length [''computeSales.py'', ''priceCatalogue.json''] \<noteq> 3 \<and>
   main example_python [''computeSales.py'', ''priceCatalogue.json''] example_files 0 0
     = [Print usage_message]"
  using usage_on_wrong_argument_count
    [of "[''computeSales.py'', ''priceCatalogue.json'']" example_python example_files 0 0]
  by simp

section \<open>The loop as a closed form\<close>

lemma map_of_dict_set: "map_of (dict_set d k v) = (map_of d)(k \<mapsto> v)"
  by (induction d) (auto simp: fun_eq_iff)

lemma dict_set_new: "k \<notin> fst ` set d \<Longrightarrow> dict_set d k v = d @ [(k, v)]"
  by (induction d) auto

lemma dict_set_map:
  "distinct xs \<Longrightarrow> p \<in> set xs \<Longrightarrow>
   dict_set (map (\<lambda>x. (KStr x, g x)) xs) (KStr p) v = map (\<lambda>x. (KStr x, if x = p then v else g x)) xs"
  by (induction xs) auto

lemma py_sum_snoc: "py_sum (xs @ [x]) = py_sum xs + x"
  by (simp add: py_sum_def)

lemma left_sum_snoc: "xs \<noteq> [] \<Longrightarrow> left_sum (xs @ [x]) = left_sum xs + x"
  by (cases xs) auto

lemma first_occurrences_snoc:
  "first_occurrences (xs @ [x]) = (if x \<in> set xs then first_occurrences xs else first_occurrences xs @ [x])"
  by (simp add: first_occurrences_def)

lemma set_first_occurrences: "set (first_occurrences xs) = set xs"
  by (simp add: first_occurrences_def)

lemma distinct_first_occurrences: "distinct (first_occurrences xs)"
  by (simp add: first_occurrences_def)

lemma those_snoc:
  "those (xs @ [x]) = (case those xs of None \<Rightarrow> None | Some ys \<Rightarrow> map_option (\<lambda>y. ys @ [y]) x)"
  by (induction xs) (cases x; auto split: option.splits)+

lemma entry_of_fields:
  "entry_of item = Some (t, p) \<Longrightarrow>
   py_getitem item ''title'' = Inr (JStr t) \<and> py_getitem item ''price'' = Inr (JNum p)"
  by (cases item) (auto split: option.splits json.splits)

lemma sale_of_fields:
  "sale_of sale = Some (p, q) \<Longrightarrow>
   py_getitem sale ''Product'' = Inr (JStr p) \<and> py_getitem sale ''Quantity'' = Inr (JNum q)"
  by (cases sale) (auto split: option.splits json.splits)

lemma price_catalogue_dict_typed:
  "those (map entry_of items) = Some C \<Longrightarrow>
   price_catalogue_dict items d = Inr (typed_dict d C)"
proof (induction items arbitrary: d C)
  case Nil
  then show ?case by (simp add: typed_dict_def)
next
  case (Cons item items)
  from Cons.prems obtain e C' where e: "entry_of item = Some e"
    and C': "those (map entry_of items) = Some C'" and C: "C = e # C'"
    by (auto split: option.splits)
  obtain t p where tp: "e = (t, p)" by (cases e)
  show ?case
    using entry_of_fields[OF e[unfolded tp]] Cons.IH[OF C'] 
    by (simp add: C tp typed_dict_def)
qed

lemma map_of_typed_dict:
  "map_of (typed_dict d C) (KStr t) =
   (case lookup_price C t of Some p \<Rightarrow> Some (JNum p) | None \<Rightarrow> map_of d (KStr t))"
proof (induction C rule: rev_induct)
  case Nil
  then show ?case by (simp add: typed_dict_def lookup_price_def)
next
  case (snoc e C)
  then show ?case
    by (auto simp: typed_dict_def lookup_price_def map_of_dict_set split: option.splits)
qed

lemma sales_loop_snoc:
  "sales_loop py d (sales @ [sale]) st =
   (case sales_loop py d sales st of
      (st', Some e) \<Rightarrow> (st', Some e)
    | (st', None) \<Rightarrow>
        (case sale_step py d sale st' of Inl e \<Rightarrow> (st', Some e) | Inr st'' \<Rightarrow> (st'', None)))"
  by (induction sales arbitrary: st) (auto split: sum.splits)

lemma summary_of_snoc_unmatched:
  "lookup_price C p = None \<Longrightarrow>
   summary_of C (S @ [(p, q)]) = (summary_of C S)\<lparr>printed := printed (summary_of C S) @ [warning_text p]\<rparr>"
  by (simp add: summary_of_def matched_sales_def unmatched_products_def)

lemma map_of_unitary:
  "map_of (map (\<lambda>p. (KStr p, g p)) xs) (KStr p) = (if p \<in> set xs then Some (g p) else None)"
  by (induction xs) auto

lemma lines_of_snoc: "lines_of p (S @ [s]) = (if fst s = p then lines_of p S @ [s] else lines_of p S)"
  by (simp add: lines_of_def)

lemma lines_of_empty: "lines_of p S = [] \<longleftrightarrow> p \<notin> fst ` set S"
  by (auto simp: lines_of_def filter_empty_conv)

lemma aggregate_of_snoc:
  "aggregate_of C (S @ [(p, q)]) p' =
   (if p' = p then
      (if p \<in> fst ` set S
       then (fst (aggregate_of C S p) + q, snd (aggregate_of C S p) + line_cost C (p, q))
       else (q, line_cost C (p, q)))
    else aggregate_of C S p')"
  using lines_of_empty[of p S]
  by (auto simp: aggregate_of_def lines_of_snoc left_sum_snoc)

lemma summary_of_snoc_matched:
  assumes "lookup_price C p = Some price"
  shows "summary_of C (S @ [(p, q)]) =
     (summary_of C S)\<lparr>total_cost := total_cost (summary_of C S) + price * q,
        total_quantity := total_quantity (summary_of C S) + q,
        unitary_cost :=
          (case map_of (unitary_cost (summary_of C S)) (KStr p) of
             None \<Rightarrow> dict_set (unitary_cost (summary_of C S)) (KStr p) (q, price * q)
           | Some (q0, c0) \<Rightarrow> dict_set (unitary_cost (summary_of C S)) (KStr p) (q0 + q, c0 + price * q))\<rparr>"
proof -
  let ?M = "matched_sales C S"
  have M: "matched_sales C (S @ [(p, q)]) = ?M @ [(p, q)]"
    using assms by (simp add: matched_sales_def)
  have lc: "line_cost C (p, q) = price * q"
    using assms by (simp add: line_cost_def)
  have U: "unmatched_products C (S @ [(p, q)]) = unmatched_products C S"
    using assms by (simp add: unmatched_products_def)
  let ?ks = "first_occurrences (map fst ?M)"
  have uc: "map (\<lambda>p'. (KStr p', aggregate_of C (?M @ [(p, q)]) p')) (first_occurrences (map fst (?M @ [(p, q)])))
     = (case map_of (map (\<lambda>p'. (KStr p', aggregate_of C ?M p')) ?ks) (KStr p) of
             None \<Rightarrow> dict_set (map (\<lambda>p'. (KStr p', aggregate_of C ?M p')) ?ks) (KStr p) (q, price * q)
           | Some (q0, c0) \<Rightarrow> dict_set (map (\<lambda>p'. (KStr p', aggregate_of C ?M p')) ?ks) (KStr p) (q0 + q, c0 + price * q))"
  proof (cases "p \<in> fst ` set ?M")
    case True
    then have pin: "p \<in> set ?ks" by (simp add: set_first_occurrences)
    show ?thesis
      using True pin
      by (simp add: map_of_unitary first_occurrences_snoc split_beta
            dict_set_map[OF distinct_first_occurrences pin] aggregate_of_snoc lc cong: if_cong)
  next
    case False
    then have pnin: "p \<notin> set ?ks" by (simp add: set_first_occurrences)
    have new: "KStr p \<notin> fst ` set (map (\<lambda>p'. (KStr p', aggregate_of C ?M p')) ?ks)"
      using pnin by (auto simp: image_iff)
    have "map (\<lambda>p'. (KStr p', aggregate_of C (?M @ [(p, q)]) p')) ?ks
        = map (\<lambda>p'. (KStr p', aggregate_of C ?M p')) ?ks"
      using pnin by (intro map_cong) (auto simp: aggregate_of_snoc)
    then show ?thesis
      using False pnin
      by (simp add: map_of_unitary first_occurrences_snoc dict_set_new[OF new] aggregate_of_snoc lc)
  qed
  have sel: "unitary_cost (summary_of C S) = map (\<lambda>p'. (KStr p', aggregate_of C ?M p')) ?ks"
    by (simp add: summary_of_def)
  have sel': "unitary_cost (summary_of C (S @ [(p, q)])) =
      map (\<lambda>p'. (KStr p', aggregate_of C (?M @ [(p, q)]) p'))
        (first_occurrences (map fst (?M @ [(p, q)])))"
    unfolding summary_of_def M by simp
  have ucf: "unitary_cost (summary_of C (S @ [(p, q)])) =
      (case map_of (unitary_cost (summary_of C S)) (KStr p) of
         None \<Rightarrow> dict_set (unitary_cost (summary_of C S)) (KStr p) (q, price * q)
       | Some (q0, c0) \<Rightarrow> dict_set (unitary_cost (summary_of C S)) (KStr p) (q0 + q, c0 + price * q))"
    unfolding sel sel' by (rule uc)
  have tcf: "total_cost (summary_of C (S @ [(p, q)])) = total_cost (summary_of C S) + price * q"
    by (simp add: summary_of_def M py_sum_snoc lc)
  have tqf: "total_quantity (summary_of C (S @ [(p, q)])) = total_quantity (summary_of C S) + q"
    by (simp add: summary_of_def M py_sum_snoc)
  have wf: "printed (summary_of C (S @ [(p, q)])) = printed (summary_of C S)"
    by (simp add: summary_of_def U)
  show ?thesis
    by (rule totals.equality) (simp_all add: tcf tqf ucf wf)
qed


lemma summary_of_Nil: "summary_of C [] = init_totals"
  by (simp add: summary_of_def init_totals_def matched_sales_def unmatched_products_def
        py_sum_def first_occurrences_def)

lemma sum_ok_snoc:
  "sum_ok raises a (xs @ [x]) = (sum_ok raises a xs \<and> \<not> raises (foldl (+) a xs) x)"
  by (induction xs arbitrary: a) auto

lemma left_sum_ok_snoc:
  "left_sum_ok raises (xs @ [x]) =
   (xs = [] \<or> (left_sum_ok raises xs \<and> \<not> raises (left_sum xs) x))"
  by (cases xs) (auto simp: sum_ok_snoc)

lemma entry_ok_snoc:
  "entry_ok py C (S @ [(p, q)]) p' =
   (if p' = p
    then (p \<notin> fst ` set S
          \<or> (entry_ok py C S p
              \<and> \<not> add_overflows py (fst (aggregate_of C S p)) q
              \<and> \<not> add_overflows py (snd (aggregate_of C S p)) (line_cost C (p, q))))
    else entry_ok py C S p')"
  using lines_of_empty[of p S]
  by (auto simp: entry_ok_def lines_of_snoc left_sum_ok_snoc aggregate_of_def)

lemma no_overflow_Nil: "no_overflow py C []"
  by (simp add: no_overflow_def matched_sales_def first_occurrences_def)

lemma no_overflow_snoc_unmatched:
  "lookup_price C p = None \<Longrightarrow> no_overflow py C (S @ [(p, q)]) = no_overflow py C S"
  by (simp add: no_overflow_def matched_sales_def)

lemma no_overflow_snoc_matched:
  assumes "lookup_price C p = Some price"
  shows "no_overflow py C (S @ [(p, q)]) =
     (no_overflow py C S
      \<and> \<not> mul_overflows py price q
      \<and> \<not> add_overflows py (total_cost (summary_of C S)) (price * q)
      \<and> \<not> add_overflows py (total_quantity (summary_of C S)) q
      \<and> (case map_of (unitary_cost (summary_of C S)) (KStr p) of
            None \<Rightarrow> True
          | Some (q0, c0) \<Rightarrow>
              \<not> add_overflows py q0 q \<and> \<not> add_overflows py c0 (price * q)))"
proof -
  let ?M = "matched_sales C S"
  let ?ks = "first_occurrences (map fst ?M)"
  have M: "matched_sales C (S @ [(p, q)]) = ?M @ [(p, q)]"
    using assms by (simp add: matched_sales_def)
  have lc: "line_cost C (p, q) = price * q"
    using assms by (simp add: line_cost_def)
  have lo: "line_overflows py C (p, q) = mul_overflows py price q"
    using assms by (simp add: line_overflows_def)
  have entries: "list_all (entry_ok py C (?M @ [(p, q)])) (first_occurrences (map fst (?M @ [(p, q)])))
      = (list_all (entry_ok py C ?M) ?ks
         \<and> (p \<in> fst ` set ?M \<longrightarrow>
              \<not> add_overflows py (fst (aggregate_of C ?M p)) q
              \<and> \<not> add_overflows py (snd (aggregate_of C ?M p)) (price * q)))"
  proof (cases "p \<in> fst ` set ?M")
    case True
    then have pin: "p \<in> set ?ks" by (simp add: set_first_occurrences)
    have "list_all (entry_ok py C (?M @ [(p, q)])) ?ks
        = (list_all (entry_ok py C ?M) ?ks
           \<and> \<not> add_overflows py (fst (aggregate_of C ?M p)) q
           \<and> \<not> add_overflows py (snd (aggregate_of C ?M p)) (price * q))"
      using pin True by (auto simp: list_all_iff entry_ok_snoc lc)
    then show ?thesis
      using True by (simp add: first_occurrences_snoc)
  next
    case False
    then have pnin: "p \<notin> set ?ks" by (simp add: set_first_occurrences)
    have "list_all (entry_ok py C (?M @ [(p, q)])) ?ks = list_all (entry_ok py C ?M) ?ks"
      using pnin by (auto simp: list_all_iff entry_ok_snoc)
    then show ?thesis
      using False by (simp add: first_occurrences_snoc entry_ok_snoc)
  qed
  have sel: "unitary_cost (summary_of C S) = map (\<lambda>p'. (KStr p', aggregate_of C ?M p')) ?ks"
    by (simp add: summary_of_def)
  have look: "(case map_of (unitary_cost (summary_of C S)) (KStr p) of
            None \<Rightarrow> True
          | Some (q0, c0) \<Rightarrow>
              \<not> add_overflows py q0 q \<and> \<not> add_overflows py c0 (price * q))
      = (p \<in> fst ` set ?M \<longrightarrow>
              \<not> add_overflows py (fst (aggregate_of C ?M p)) q
              \<and> \<not> add_overflows py (snd (aggregate_of C ?M p)) (price * q))"
    by (simp add: sel map_of_unitary set_first_occurrences split_beta)
  have tc: "total_cost (summary_of C S) = foldl (+) 0 (map (line_cost C) ?M)"
    and tq: "total_quantity (summary_of C S) = foldl (+) 0 (map snd ?M)"
    by (simp_all add: summary_of_def py_sum_def)
  show ?thesis
    unfolding look tc tq
    unfolding no_overflow_def M entries
    by (auto simp: sum_ok_snoc lc lo)
qed

lemma sale_step_unmatched:
  assumes "sale_of sale = Some (p, q)"
    and "\<And>t. map_of d (KStr t) = map_option JNum (lookup_price C t)"
    and "lookup_price C p = None"
  shows "sale_step py d sale (summary_of C S) = Inr (summary_of C (S @ [(p, q)]))"
  using sale_of_fields[OF assms(1)] assms(2)[of p] assms(3)
  by (simp add: sale_step_def warning_message_def str_key_def summary_of_snoc_unmatched)

lemma sale_step_matched:
  assumes "sale_of sale = Some (p, q)"
    and "\<And>t. map_of d (KStr t) = map_option JNum (lookup_price C t)"
    and "lookup_price C p = Some price" and "no_overflow py C S"
  shows "sale_step py d sale (summary_of C S) =
     (if no_overflow py C (S @ [(p, q)])
      then Inr (summary_of C (S @ [(p, q)])) else Inl OverflowError)"
proof (cases "map_of (unitary_cost (summary_of C S)) (KStr p)")
  case None
  then show ?thesis
    using sale_of_fields[OF assms(1)] assms(2)[of p] assms(3,4)
    by (simp add: sale_step_def summary_of_snoc_matched[OF assms(3)]
          no_overflow_snoc_matched[OF assms(3)])
next
  case (Some entry)
  obtain q0 c0 where e: "entry = (q0, c0)" by (cases entry)
  show ?thesis
    using sale_of_fields[OF assms(1)] assms(2)[of p] assms(3,4) Some
    by (auto simp: sale_step_def summary_of_snoc_matched[OF assms(3)]
          no_overflow_snoc_matched[OF assms(3)] e)
qed

lemma no_overflow_prefix: "no_overflow py C (S @ [s]) \<Longrightarrow> no_overflow py C S"
proof -
  obtain p q where s: "s = (p, q)" by (cases s)
  show "no_overflow py C (S @ [s]) \<Longrightarrow> no_overflow py C S"
    by (cases "lookup_price C p")
      (simp_all add: s no_overflow_snoc_unmatched no_overflow_snoc_matched)
qed

lemma sales_loop_typed:
  assumes "\<And>t. map_of d (KStr t) = map_option JNum (lookup_price C t)"
  shows "those (map sale_of sales) = Some S \<Longrightarrow>
         (if no_overflow py C S
          then sales_loop py d sales init_totals = (summary_of C S, None)
          else \<exists>S'. sales_loop py d sales init_totals = (summary_of C S', Some OverflowError)
                 \<and> matched_sales C S' \<noteq> matched_sales C S
                 \<and> (\<exists>S''. S = S' @ S''))"
proof (induction sales arbitrary: S rule: rev_induct)
  case Nil
  then show ?case by (simp add: summary_of_Nil no_overflow_Nil)
next
  case (snoc sale sales)
  from snoc.prems obtain S' s where S': "those (map sale_of sales) = Some S'"
    and s: "sale_of sale = Some s" and S: "S = S' @ [s]"
    by (auto simp: those_snoc split: option.splits)
  obtain p q where pq: "s = (p, q)" by (cases s)
  note IH = snoc.IH[OF S']
  show ?case
  proof (cases "no_overflow py C S'")
    case True
    with IH have loop: "sales_loop py d sales init_totals = (summary_of C S', None)" by simp
    show ?thesis
    proof (cases "lookup_price C p")
      case None
      show ?thesis
        using loop True sale_step_unmatched[OF s[unfolded pq] assms None, of py S']
        by (simp add: sales_loop_snoc S pq no_overflow_snoc_unmatched[OF None])
    next
      case (Some price)
      have m: "matched_sales C S' \<noteq> matched_sales C (S' @ [(p, q)])"
        using Some by (simp add: matched_sales_def)
      show ?thesis
        using loop True sale_step_matched[OF s[unfolded pq] assms Some True] m
        by (auto simp: sales_loop_snoc S pq)
    qed
  next
    case False
    then have nS: "\<not> no_overflow py C S"
      using no_overflow_prefix[of py C S' s] by (auto simp: S)
    from False IH obtain T where T: "sales_loop py d sales init_totals = (summary_of C T, Some OverflowError)"
      and Tm: "matched_sales C T \<noteq> matched_sales C S'" and Tp: "\<exists>T'. S' = T @ T'"
      by auto
    from Tp obtain T' where T': "S' = T @ T'" ..
    have "matched_sales C T \<noteq> matched_sales C S"
    proof
      assume "matched_sales C T = matched_sales C S"
      then have "length (matched_sales C T) = length (matched_sales C (T @ T' @ [s]))"
        by (simp add: S T')
      then have "matched_sales C (T' @ [s]) = []"
        by (simp add: matched_sales_def)
      then have "matched_sales C T' = []"
        by (simp add: matched_sales_def)
      then show False
        using Tm by (simp add: T' matched_sales_def)
    qed
    moreover have "\<exists>S''. S = T @ S''"
      by (simp add: S T')
    ultimately show ?thesis
      using nS T by (auto simp: sales_loop_snoc)
  qed
qed

lemma compute_total_cost_typed:
  assumes "catalogue_of price_catalogue = Some C" and "sales_of sales_record = Some S"
  shows "if no_overflow py C S
     then compute_total_cost py price_catalogue sales_record =
       (map warning_text (unmatched_products C S),
        Inr (py_sum (map (line_cost C) (matched_sales C S)),
             py_sum (map snd (matched_sales C S)),
             map (\<lambda>p. (KStr p, aggregate_of C (matched_sales C S) p))
               (first_occurrences (map fst (matched_sales C S)))))
     else \<exists>S'. compute_total_cost py price_catalogue sales_record =
              (map warning_text (unmatched_products C S'), Inl OverflowError)
            \<and> (\<exists>S''. S = S' @ S'')"
proof -
  from assms(1) obtain items where pc: "price_catalogue = JArr items"
    and C: "those (map entry_of items) = Some C"
    by (cases price_catalogue) auto
  from assms(2) obtain sales where sr: "sales_record = JArr sales"
    and S: "those (map sale_of sales) = Some S"
    by (cases sales_record) auto
  have d: "\<And>t. map_of (typed_dict [] C) (KStr t) = map_option JNum (lookup_price C t)"
    by (simp add: map_of_typed_dict split: option.splits)
  show ?thesis
  proof (cases "no_overflow py C S")
    case True
    then show ?thesis
      using price_catalogue_dict_typed[OF C, of "[]"] sales_loop_typed[OF d S, of py]
      by (simp add: compute_total_cost_def pc sr summary_of_def)
  next
    case False
    with sales_loop_typed[OF d S, of py] obtain S' where
      "sales_loop py (typed_dict [] C) sales init_totals = (summary_of C S', Some OverflowError)"
      and "\<exists>S''. S = S' @ S''"
      by auto
    then show ?thesis
      using False price_catalogue_dict_typed[OF C, of "[]"]
      by (auto simp: compute_total_cost_def pc sr summary_of_def)
  qed
qed

lemma those_append:
  "those (xs @ ys) = (case those xs of None \<Rightarrow> None | Some a \<Rightarrow> map_option ((@) a) (those ys))"
  by (induction xs) (cases "those ys"; auto split: option.splits)+

section \<open>The example interpreter\<close>

lemma is_int_of_int: "is_int (of_int n)"
  by (simp add: is_int_def)


lemma not_is_int_half: "\<not> is_int (of_int (2 * n + 1) / 2)"
proof
  assume "is_int (of_int (2 * n + 1) / 2)"
  then have "(of_int (2 * \<lfloor>(of_int (2 * n + 1) / 2 :: rat)\<rfloor>) :: rat) = of_int (2 * n + 1)"
    by (simp add: is_int_def)
  then have "2 * \<lfloor>(of_int (2 * n + 1) / 2 :: rat)\<rfloor> = 2 * n + 1"
    by (simp only: of_int_eq_iff)
  then show False
    by presburger
qed

lemma not_is_int_halves: "\<not> is_int (3 / 2)" "\<not> is_int (5 / 2)"
  using not_is_int_half[of 1] not_is_int_half[of 2] by simp_all

lemma small_not_beyond_double: "\<bar>r\<bar> \<le> 100 \<Longrightarrow> \<not> beyond_double r"
proof -
  have "(100::rat) < 2 ^ 1024 - 2 ^ 970"
    by simp
  then show "\<bar>r\<bar> \<le> 100 \<Longrightarrow> \<not> beyond_double r"
    by (simp add: beyond_double_def)
qed

lemma small_no_overflow:
  "\<bar>x\<bar> \<le> 100 \<Longrightarrow> \<bar>y\<bar> \<le> 100 \<Longrightarrow> float_meets_large_int x y = False"
  by (simp add: float_meets_large_int_def small_not_beyond_double)

lemma large_quantity_beyond_double: "beyond_double large_quantity"
proof -
  have eq: "large_quantity = of_int (10 ^ 400)"
    by (simp add: large_quantity_def)
  have "is_int large_quantity"
    unfolding eq by (rule is_int_of_int)
  moreover have "(2::rat) ^ 1024 - 2 ^ 970 \<le> \<bar>large_quantity\<bar>"
    by (simp add: large_quantity_def)
  ultimately show ?thesis
    by (simp add: beyond_double_def)
qed

lemma large_quantity_overflows: "mul_overflows example_python (3 / 2) large_quantity"
  by (simp add: example_python_def float_meets_large_int_def not_is_int_halves
        large_quantity_beyond_double)


lemma small_py_str: "\<bar>r\<bar> \<le> 100 \<Longrightarrow> \<not> isl (py_str example_python r)"
proof -
  have "(10::rat) ^ 2 < 10 ^ 4300"
    by (rule power_strict_increasing) simp_all
  moreover have "(100::rat) = 10 ^ 2"
    by simp
  ultimately have "(100::rat) < str_limit"
    by (simp only: str_limit_def)
  then show "\<bar>r\<bar> \<le> 100 \<Longrightarrow> \<not> isl (py_str example_python r)"
    by (simp add: example_python_def)
qed

lemma small_fmt_2f: "\<bar>r\<bar> \<le> 100 \<Longrightarrow> \<not> isl (fmt_2f example_python r)"
  by (simp add: example_python_def small_not_beyond_double)

lemma example_no_overflow:
  "no_overflow example_python [(''Apple'', 2), (''Pen'', 3 / 2)]
     [(''Apple'', 3), (''Pen'', 2), (''Ghost'', 1)]"
  by (simp add: no_overflow_def matched_sales_def lookup_price_def line_overflows_def
        line_cost_def example_python_def first_occurrences_def entry_ok_def lines_of_def
        small_no_overflow del: not_None_eq)

lemma example_repeated_no_overflow:
  "no_overflow example_python [(''Apple'', 2), (''Pen'', 3 / 2)]
     [(''Pen'', 2), (''Ghost'', 1), (''Apple'', 3), (''Pen'', 4)]"
  by (simp add: no_overflow_def matched_sales_def lookup_price_def line_overflows_def
        line_cost_def example_python_def first_occurrences_def entry_ok_def lines_of_def
        small_no_overflow del: not_None_eq)


lemma overflow_step:
  "map_of d (KStr ''Pen'') = Some (JNum (3 / 2)) \<Longrightarrow>
   sale_step example_python d large_sale st = Inl OverflowError"
  using large_quantity_overflows by (simp add: sale_step_def large_sale_def)

section \<open>Runs of main\<close>


lemma single_entry:
  "p \<in> set xs \<Longrightarrow> distinct xs \<Longrightarrow>
   length (filter (\<lambda>e. fst e = KStr p) (map (\<lambda>x. (KStr x, g x)) xs)) = 1"
  by (induction xs) (auto simp: filter_empty_conv)

lemma remdups_snoc: "remdups (ys @ [x]) = filter (\<lambda>y. y \<noteq> x) (remdups ys) @ [x]"
  by (induction ys) auto

lemma first_occurrences_Cons:
  "first_occurrences (x # xs) = x # filter (\<lambda>y. y \<noteq> x) (first_occurrences xs)"
  by (simp add: first_occurrences_def remdups_snoc rev_filter)


lemma foldl_plus_sum_list: "foldl (+) a xs = a + sum_list (xs :: 'a::comm_monoid_add list)"
  by (induction xs arbitrary: a) (simp_all add: add.assoc)

lemma py_sum_sum_list: "py_sum xs = sum_list (xs :: 'a::comm_monoid_add list)"
  by (simp add: py_sum_def foldl_plus_sum_list)

lemma left_sum_sum_list: "left_sum xs = sum_list (xs :: 'a::comm_monoid_add list)"
  by (cases xs) (simp_all add: foldl_plus_sum_list)

lemma matched_line_cost:
  "s \<in> set (matched_sales C S) \<Longrightarrow> \<exists>price. lookup_price C (fst s) = Some price \<and> line_cost C s = price * snd s"
  by (auto simp: matched_sales_def line_cost_def)

lemma stdout_of_append: "stdout_of (tr @ tr') = stdout_of tr @ stdout_of tr'"
  by (induction tr rule: stdout_of.induct) auto

lemma file_written_append:
  "file_written name (tr @ tr') =
   (case file_written name tr' of Some s \<Rightarrow> Some s | None \<Rightarrow> file_written name tr)"
  by (induction name tr rule: file_written.induct) (auto split: option.splits)

lemma stdout_of_prints: "stdout_of (map Print ws) = concat (map (\<lambda>w. w @ newline) ws)"
  by (induction ws) auto

lemma file_written_prints: "file_written name (map Print ws) = None"
  by (induction ws) auto




lemma product_rows_converts:
  "list_all (\<lambda>entry. case entry of (k, q, c) \<Rightarrow>
       \<not> isl (str_key py k) \<and> \<not> isl (py_str py q) \<and> \<not> isl (fmt_2f py c)) entries
   \<Longrightarrow> \<exists>rows. product_rows py entries = Inr rows"
  by (induction entries) (auto simp: product_row_def split: sum.splits)

lemma report_str_converts:
  "converts py t_cost t_amount u_cost \<Longrightarrow>
   \<exists>report. report_str py t_cost t_amount u_cost elapsed_time = Inr report"
  using product_rows_converts[of py u_cost]
  by (auto simp: converts_def report_str_def totals_row_def split: sum.splits)


lemma main_on_documents:
  assumes "length argv = 3"
    and "fs (argv ! 1) = Document price_catalogue" and "price_catalogue \<noteq> JNull"
    and "fs (argv ! 2) = Document sales_record" and "sales_record \<noteq> JNull"
  shows "main py argv fs start_time end_time =
     [Open_read (argv ! 1), Open_read (argv ! 2), Aggregate]
       @ (case compute_total_cost py price_catalogue sales_record of
            (ws, Inl e) \<Rightarrow> map Print ws @ [Raise e]
          | (ws, Inr (t_cost, t_amount, u_cost)) \<Rightarrow>
              (case report_str py t_cost t_amount u_cost (end_time - start_time) of
                 Inl e \<Rightarrow> map Print ws @ [Raise e]
               | Inr report \<Rightarrow>
                   map Print ws @ [Print report, Write_file ''SalesResults.txt'' report]))"
  using assms by (simp add: main_def load_json_file_def split: prod.splits sum.splits)

lemma main_writes:
  assumes "file_written name (main py argv fs start_time end_time) = Some r"
  shows "\<exists>price_catalogue sales_record ws t_cost t_amount u_cost.
           fs (argv ! 1) = Document price_catalogue \<and> fs (argv ! 2) = Document sales_record
           \<and> length argv = 3
           \<and> compute_total_cost py price_catalogue sales_record
               = (ws, Inr (t_cost, t_amount, u_cost))
           \<and> report_str py t_cost t_amount u_cost (end_time - start_time) = Inr r
           \<and> main py argv fs start_time end_time =
               [Open_read (argv ! 1), Open_read (argv ! 2), Aggregate] @ map Print ws
                 @ [Print r, Write_file ''SalesResults.txt'' r]"
  using assms
  by (auto simp: main_def load_json_file_def file_written_append file_written_prints
        split: if_splits source.splits prod.splits sum.splits)

text \<open>Every text that the loop prints is the warning for some key.\<close>

lemma sale_step_printed:
  "sale_step py d sale st = Inr st' \<Longrightarrow>
   \<exists>ks ws. map (warning_message py) ks = map Inr ws \<and> printed st' = printed st @ ws"
proof -
  assume a: "sale_step py d sale st = Inr st'"
  then have "printed st' = printed st \<or> (\<exists>k w. warning_message py k = Inr w \<and> printed st' = printed st @ [w])"
    by (auto simp: sale_step_def split: sum.splits option.splits json.splits if_splits prod.splits)
  then show ?thesis
  proof
    assume "printed st' = printed st"
    then have "map (warning_message py) [] = map Inr [] \<and> printed st' = printed st @ []"
      by simp
    then show ?thesis by blast
  next
    assume "\<exists>k w. warning_message py k = Inr w \<and> printed st' = printed st @ [w]"
    then obtain k w where "warning_message py k = Inr w" "printed st' = printed st @ [w]"
      by blast
    then have "map (warning_message py) [k] = map Inr [w] \<and> printed st' = printed st @ [w]"
      by simp
    then show ?thesis by blast
  qed
qed

lemma sales_loop_printed:
  "sales_loop py d sales st = (st', r) \<Longrightarrow>
   \<exists>ks ws. map (warning_message py) ks = map Inr ws \<and> printed st' = printed st @ ws"
proof (induction sales arbitrary: st)
  case Nil
  then have "map (warning_message py) [] = map Inr [] \<and> printed st' = printed st @ []"
    by simp
  then show ?case by blast
next
  case (Cons sale sales)
  show ?case
  proof (cases "sale_step py d sale st")
    case (Inl e)
    with Cons.prems have "map (warning_message py) [] = map Inr [] \<and> printed st' = printed st @ []"
      by simp
    then show ?thesis by blast
  next
    case (Inr st1)
    with Cons.prems have "sales_loop py d sales st1 = (st', r)" by simp
    from Cons.IH[OF this] obtain ks ws where 1: "map (warning_message py) ks = map Inr ws"
      and 2: "printed st' = printed st1 @ ws" by blast
    from sale_step_printed[OF Inr] obtain ks0 ws0 where 3: "map (warning_message py) ks0 = map Inr ws0"
      and 4: "printed st1 = printed st @ ws0" by blast
    have "map (warning_message py) (ks0 @ ks) = map Inr (ws0 @ ws)
        \<and> printed st' = printed st @ (ws0 @ ws)"
      using 1 2 3 4 by simp
    then show ?thesis by blast
  qed
qed

lemma compute_total_cost_printed:
  "compute_total_cost py price_catalogue sales_record = (ws, r) \<Longrightarrow>
   \<exists>ks. map (warning_message py) ks = map Inr ws"
proof -
  assume a: "compute_total_cost py price_catalogue sales_record = (ws, r)"
  have e: "map (warning_message py) [] = map Inr []" by simp
  show ?thesis
  proof (cases "\<exists>items d sales. py_iter price_catalogue = Inr items
      \<and> price_catalogue_dict items [] = Inr d \<and> py_iter sales_record = Inr sales")
    case False
    with a have "ws = []"
      by (auto simp: compute_total_cost_def split: sum.splits)
    with e show ?thesis by blast
  next
    case True
    then obtain items d sales where i: "py_iter price_catalogue = Inr items"
      "price_catalogue_dict items [] = Inr d" "py_iter sales_record = Inr sales" by blast
    obtain st r' where l: "sales_loop py d sales init_totals = (st, r')"
      by (cases "sales_loop py d sales init_totals")
    from a i l have w: "ws = printed st"
      by (auto simp: compute_total_cost_def split: option.splits)
    from sales_loop_printed[OF l] show ?thesis
      by (auto simp: w init_totals_def)
  qed
qed

section \<open>The totals over matched sales\<close>


lemma sales_loop_append:
  "sales_loop py d (xs @ ys) st =
     (case sales_loop py d xs st of
        (st', Some e) \<Rightarrow> (st', Some e)
      | (st', None) \<Rightarrow> sales_loop py d ys st')"
  by (induction xs arbitrary: st) (auto split: sum.splits)

lemma example_catalogue_typed:
  "catalogue_of example_catalogue = Some [(''Apple'', 2), (''Pen'', 3 / 2)]"
  by (simp add: example_catalogue_def)

lemma example_sales_typed:
  "sales_of example_sales = Some [(''Apple'', 3), (''Pen'', 2), (''Ghost'', 1)]"
  by (simp add: example_sales_def)

lemma example_sales_repeated_typed:
  "sales_of example_sales_repeated
     = Some [(''Pen'', 2), (''Ghost'', 1), (''Apple'', 3), (''Pen'', 4)]"
  by (simp add: example_sales_repeated_def)

lemma pen_catalogue_typed: "catalogue_of pen_catalogue = Some [(''Pen'', 3 / 2)]"
  by (simp add: pen_catalogue_def)


lemma overflow_run:
  assumes "catalogue_of price_catalogue = Some C" and "lookup_price C ''Pen'' = Some (3 / 2)"
    and "those (map sale_of before) = Some S" and "no_overflow example_python C S"
  shows "compute_total_cost example_python price_catalogue (JArr (before @ large_sale # after))
     = (map warning_text (unmatched_products C S), Inl OverflowError)"
proof -
  from assms(1) obtain items where pc: "price_catalogue = JArr items"
    and C: "those (map entry_of items) = Some C"
    by (cases price_catalogue) auto
  have d: "\<And>t. map_of (typed_dict [] C) (KStr t) = map_option JNum (lookup_price C t)"
    by (simp add: map_of_typed_dict split: option.splits)
  have loop: "sales_loop example_python (typed_dict [] C) before init_totals
      = (summary_of C S, None)"
    using sales_loop_typed[OF d assms(3), of example_python] assms(4) by simp
  have pen: "map_of (typed_dict [] C) (KStr ''Pen'') = Some (JNum (3 / 2))"
    by (simp add: d assms(2))
  have "sales_loop example_python (typed_dict [] C) (before @ large_sale # after) init_totals
      = (summary_of C S, Some OverflowError)"
    by (simp add: sales_loop_append loop overflow_step[OF pen])
  then show ?thesis
    using price_catalogue_dict_typed[OF C, of "[]"]
    by (simp add: compute_total_cost_def pc summary_of_def)
qed

text \<open>
  C1, as the code has it. For a catalogue and a sales record of the input format: when
  none of the multiplications and additions of the sums raises, \<^verbatim>\<open>compute_total_cost\<close>
  returns as total cost the sum, over the sales whose product has a price in the lookup
  and in their order, of price times quantity, and as total quantity the sum of the
  quantities of those sales; when one raises, the function raises \<^verbatim>\<open>OverflowError\<close> and
  returns nothing. An empty sales record gives the totals 0 and 0 and an empty mapping.
\<close>

theorem join_correctness:
  assumes "catalogue_of price_catalogue = Some C" and "sales_of sales_record = Some S"
  shows "(if no_overflow py C S
          then \<exists>ws unitary. compute_total_cost py price_catalogue sales_record =
                 (ws, Inr (py_sum (map (line_cost C) (matched_sales C S)),
                           py_sum (map snd (matched_sales C S)), unitary))
          else \<exists>ws. compute_total_cost py price_catalogue sales_record
                 = (ws, Inl OverflowError))
       \<and> (\<forall>s \<in> set (matched_sales C S).
             \<exists>price. lookup_price C (fst s) = Some price \<and> line_cost C s = price * snd s)
       \<and> compute_total_cost py price_catalogue (JArr []) = ([], Inr (0, 0, []))"
proof -
  have e: "sales_of (JArr [] :: 'a json) = Some []" by simp
  have "compute_total_cost py price_catalogue (JArr []) = ([], Inr (0, 0, []))"
    using compute_total_cost_typed[OF assms(1) e, of py]
    by (simp add: no_overflow_Nil unmatched_products_def matched_sales_def py_sum_def
          first_occurrences_def)
  moreover have "\<forall>s \<in> set (matched_sales C S).
             \<exists>price. lookup_price C (fst s) = Some price \<and> line_cost C s = price * snd s"
    using matched_line_cost[of _ C S] by blast
  moreover have "if no_overflow py C S
          then \<exists>ws unitary. compute_total_cost py price_catalogue sales_record =
                 (ws, Inr (py_sum (map (line_cost C) (matched_sales C S)),
                           py_sum (map snd (matched_sales C S)), unitary))
          else \<exists>ws. compute_total_cost py price_catalogue sales_record
                 = (ws, Inl OverflowError)"
    using compute_total_cost_typed[OF assms, of py] by (auto split: if_splits)
  ultimately show ?thesis by blast
qed

theorem join_correctness_witness:
  "catalogue_of example_catalogue = Some [(''Apple'', 2), (''Pen'', 3 / 2)]
   \<and> sales_of example_sales = Some [(''Apple'', 3), (''Pen'', 2), (''Ghost'', 1)]
   \<and> no_overflow example_python [(''Apple'', 2), (''Pen'', 3 / 2)]
        [(''Apple'', 3), (''Pen'', 2), (''Ghost'', 1)]
   \<and> (\<exists>ws unitary. compute_total_cost example_python example_catalogue example_sales
          = (ws, Inr (9, 5, unitary)))
   \<and> compute_total_cost example_python example_catalogue (JArr []) = ([], Inr (0, 0, []))"
proof -
  note c = example_catalogue_typed and s = example_sales_typed and n = example_no_overflow
  have m: "matched_sales [(''Apple'', 2), (''Pen'', 3 / 2)] [(''Apple'', 3), (''Pen'', 2), (''Ghost'', 1 :: rat)]
      = [(''Apple'', 3), (''Pen'', 2)]"
    by (simp add: matched_sales_def lookup_price_def del: not_None_eq)
  have tc: "py_sum (map (line_cost [(''Apple'', 2), (''Pen'', 3 / 2)]) [(''Apple'', 3), (''Pen'', 2 :: rat)]) = 9"
    by (simp add: py_sum_def line_cost_def lookup_price_def)
  have tq: "py_sum (map snd [(''Apple'', 3), (''Pen'', 2 :: rat)]) = 5"
    by (simp add: py_sum_def)
  note j = join_correctness[OF c s, of example_python, unfolded m tc tq if_P[OF n]]
  from j have 1: "\<exists>ws unitary. compute_total_cost example_python example_catalogue example_sales
      = (ws, Inr (9, 5, unitary))"
    by (rule conjunct1)
  from j have 2: "compute_total_cost example_python example_catalogue (JArr []) = ([], Inr (0, 0, []))"
    by (rule conjunct2[THEN conjunct2])
  show ?thesis
    using c s n 1 2 by blast
qed

text \<open>
  The price 1.5 is a float and the quantity \<open>10 ^ 400\<close> an int beyond the range of a
  double: line 70 raises \<^verbatim>\<open>OverflowError\<close>, and no total is returned.
\<close>

theorem join_overflow_counterexample:
  "catalogue_of pen_catalogue = Some [(''Pen'', 3 / 2)]
   \<and> sales_of (JArr [large_sale]) = Some [(''Pen'', large_quantity)]
   \<and> compute_total_cost example_python pen_catalogue (JArr [large_sale])
       = ([], Inl OverflowError)"
proof -
  have l: "lookup_price [(''Pen'', 3 / 2 :: rat)] ''Pen'' = Some (3 / 2)"
    by (simp add: lookup_price_def)
  have b: "those (map sale_of ([] :: rat json list)) = Some []" by simp
  have "compute_total_cost example_python pen_catalogue (JArr ([] @ large_sale # []))
       = ([], Inl OverflowError)"
    using overflow_run[OF pen_catalogue_typed l b no_overflow_Nil, of "[]"]
    by (simp add: unmatched_products_def)
  then show ?thesis
    by (simp add: pen_catalogue_typed large_sale_def)
qed

section \<open>Unmatched sales, repeated products and repeated titles\<close>

text \<open>
  C2, as the code has it. For a catalogue and a sales record of the input format, and a
  sale of the record whose product has no price: when none of the multiplications and
  additions of the sums raises, \<^verbatim>\<open>compute_total_cost\<close> returns a summary, which is that of
  the record without the sale, and the warnings are those of the unmatched sales before
  it, one warning for its product, and those of the unmatched sales after it: one for each
  occurrence; when one raises, the function raises \<^verbatim>\<open>OverflowError\<close>. When no sale has a
  price the summary has the totals 0 and 0 and an empty mapping, and nothing is raised.
\<close>

theorem unmatched_isolation:
  assumes "catalogue_of price_catalogue = Some C"
    and "sales_of (JArr (before @ sale # after)) = Some S"
    and "sale_of sale = Some (p, q)" and "lookup_price C p = None"
  shows "(if no_overflow py C S
          then snd (compute_total_cost py price_catalogue (JArr (before @ sale # after)))
                 = snd (compute_total_cost py price_catalogue (JArr (before @ after)))
             \<and> (\<exists>summary. snd (compute_total_cost py price_catalogue
                                   (JArr (before @ sale # after))) = Inr summary)
             \<and> (\<exists>S1 S2. sales_of (JArr before) = Some S1 \<and> sales_of (JArr after) = Some S2
                   \<and> fst (compute_total_cost py price_catalogue (JArr (before @ sale # after)))
                       = map warning_text (unmatched_products C S1) @ [warning_text p]
                           @ map warning_text (unmatched_products C S2))
             \<and> fst (compute_total_cost py price_catalogue (JArr (before @ sale # after)))
                 = map warning_text (unmatched_products C S)
          else \<exists>ws. compute_total_cost py price_catalogue (JArr (before @ sale # after))
                 = (ws, Inl OverflowError))
       \<and> ((\<forall>s \<in> set S. lookup_price C (fst s) = None) \<longrightarrow>
            compute_total_cost py price_catalogue (JArr (before @ sale # after))
              = (map (\<lambda>s. warning_text (fst s)) S, Inr (0, 0, [])))"
proof -
  from assms(2,3) obtain S1 S2 where S1: "those (map sale_of before) = Some S1"
    and S2: "those (map sale_of after) = Some S2" and S: "S = S1 @ (p, q) # S2"
    by (auto simp: those_append split: option.splits)
  have b: "sales_of (JArr before) = Some S1" using S1 by simp
  have a: "sales_of (JArr after) = Some S2" using S2 by simp
  have ba: "sales_of (JArr (before @ after)) = Some (S1 @ S2)"
    using S1 S2 by (simp add: those_append)
  have m: "matched_sales C S = matched_sales C (S1 @ S2)"
    using assms(4) by (simp add: S matched_sales_def)
  have n: "no_overflow py C (S1 @ S2) = no_overflow py C S"
    by (simp add: no_overflow_def m)
  have u: "unmatched_products C S = unmatched_products C S1 @ [p] @ unmatched_products C S2"
    using assms(4) by (simp add: S unmatched_products_def)
  note full = compute_total_cost_typed[OF assms(1,2), of py]
  have 1: "snd (compute_total_cost py price_catalogue (JArr (before @ sale # after)))
      = snd (compute_total_cost py price_catalogue (JArr (before @ after)))"
    if "no_overflow py C S"
    using that full compute_total_cost_typed[OF assms(1) ba, of py] by (simp add: m n)
  have 2: "\<exists>summary. snd (compute_total_cost py price_catalogue (JArr (before @ sale # after)))
      = Inr summary" if "no_overflow py C S"
    using that full by simp
  have 4: "fst (compute_total_cost py price_catalogue (JArr (before @ sale # after)))
      = map warning_text (unmatched_products C S)" if "no_overflow py C S"
    using that full by simp
  have 3: "\<exists>S1 S2. sales_of (JArr before) = Some S1 \<and> sales_of (JArr after) = Some S2
      \<and> fst (compute_total_cost py price_catalogue (JArr (before @ sale # after)))
          = map warning_text (unmatched_products C S1) @ [warning_text p]
              @ map warning_text (unmatched_products C S2)" if "no_overflow py C S"
    using 4[OF that] a b by (simp add: u)
  have 6: "\<exists>ws. compute_total_cost py price_catalogue (JArr (before @ sale # after))
      = (ws, Inl OverflowError)" if "\<not> no_overflow py C S"
    using that full by auto
  have 5: "compute_total_cost py price_catalogue (JArr (before @ sale # after))
      = (map (\<lambda>s. warning_text (fst s)) S, Inr (0, 0, []))"
    if none: "\<forall>s \<in> set S. lookup_price C (fst s) = None"
  proof -
    have e: "matched_sales C S = []"
      using none by (auto simp: matched_sales_def filter_empty_conv)
    have "filter (\<lambda>s. lookup_price C (fst s) = None) S = S"
      using none by (intro filter_True) auto
    then have w: "unmatched_products C S = map fst S"
      by (simp add: unmatched_products_def filter_map comp_def)
    have "no_overflow py C S"
      by (simp add: no_overflow_def e first_occurrences_def)
    then show ?thesis
      using full by (simp add: e w py_sum_def first_occurrences_def comp_def)
  qed
  show ?thesis
  proof (cases "no_overflow py C S")
    case True
    then show ?thesis using 1 2 3 4 5 by simp
  next
    case False
    then show ?thesis using 5 6 by simp
  qed
qed

theorem unmatched_isolation_witness:
  "catalogue_of example_catalogue = Some [(''Apple'', 2), (''Pen'', 3 / 2)]
   \<and> sales_of example_sales_repeated
       = Some [(''Pen'', 2), (''Ghost'', 1), (''Apple'', 3), (''Pen'', 4)]
   \<and> sale_of ghost_sale = Some (''Ghost'', 1)
   \<and> lookup_price [(''Apple'', 2), (''Pen'', 3 / 2 :: rat)] ''Ghost'' = None
   \<and> no_overflow example_python [(''Apple'', 2), (''Pen'', 3 / 2)]
        [(''Pen'', 2), (''Ghost'', 1), (''Apple'', 3), (''Pen'', 4)]
   \<and> snd (compute_total_cost example_python example_catalogue example_sales_repeated)
       = snd (compute_total_cost example_python example_catalogue
                (JArr [pen_sale, apple_sale,
                       JObj [(''Product'', JStr ''Pen''), (''Quantity'', JNum 4)]]))
   \<and> (\<exists>summary. snd (compute_total_cost example_python example_catalogue
                         example_sales_repeated) = Inr summary)
   \<and> fst (compute_total_cost example_python example_catalogue example_sales_repeated)
       = [warning_text ''Ghost'']
   \<and> sales_of (JArr example_sales_unmatched) = Some [(''Ghost'', 1), (''Shadow'', 7)]
   \<and> lookup_price [(''Apple'', 2), (''Pen'', 3 / 2 :: rat)] ''Shadow'' = None
   \<and> compute_total_cost example_python example_catalogue (JArr example_sales_unmatched)
       = ([warning_text ''Ghost'', warning_text ''Shadow''], Inr (0, 0, []))"
proof -
  note c = example_catalogue_typed and n = example_repeated_no_overflow
  let ?after = "[apple_sale, JObj [(''Product'', JStr ''Pen''), (''Quantity'', JNum 4)]]"
  have r: "example_sales_repeated = JArr ([pen_sale] @ ghost_sale # ?after)"
    by (simp add: example_sales_repeated_def pen_sale_def ghost_sale_def apple_sale_def)
  have sr: "sales_of (JArr ([pen_sale] @ ghost_sale # ?after))
      = Some [(''Pen'', 2), (''Ghost'', 1), (''Apple'', 3), (''Pen'', 4)]"
    using example_sales_repeated_typed unfolding r .
  have sg: "sale_of ghost_sale = Some (''Ghost'', 1)"
    by (simp add: ghost_sale_def)
  have g: "lookup_price [(''Apple'', 2), (''Pen'', 3 / 2 :: rat)] ''Ghost'' = None"
    by (simp add: lookup_price_def)
  have um: "unmatched_products [(''Apple'', 2), (''Pen'', 3 / 2 :: rat)]
        [(''Pen'', 2), (''Ghost'', 1), (''Apple'', 3), (''Pen'', 4)] = [''Ghost'']"
    by (simp add: unmatched_products_def lookup_price_def)
  note first = unmatched_isolation[OF c sr sg g, of example_python, THEN conjunct1,
      unfolded if_P[OF n] um]
  have 1: "snd (compute_total_cost example_python example_catalogue example_sales_repeated)
       = snd (compute_total_cost example_python example_catalogue
                (JArr [pen_sale, apple_sale,
                       JObj [(''Product'', JStr ''Pen''), (''Quantity'', JNum 4)]]))"
    using first[THEN conjunct1] unfolding r by simp
  have 2: "\<exists>summary. snd (compute_total_cost example_python example_catalogue
                         example_sales_repeated) = Inr summary"
    using first[THEN conjunct2, THEN conjunct1] unfolding r .
  have 3: "fst (compute_total_cost example_python example_catalogue example_sales_repeated)
       = [warning_text ''Ghost'']"
    using first[THEN conjunct2, THEN conjunct2, THEN conjunct2] unfolding r by simp
  have u: "example_sales_unmatched =
      [JObj [(''Product'', JStr ''Ghost''), (''Quantity'', JNum 1)]]
        @ JObj [(''Product'', JStr ''Shadow''), (''Quantity'', JNum 7)] # []"
    by (simp add: example_sales_unmatched_def)
  have s: "sales_of (JArr ([JObj [(''Product'', JStr ''Ghost''), (''Quantity'', JNum 1)]]
        @ JObj [(''Product'', JStr ''Shadow''), (''Quantity'', JNum 7)] # []))
      = Some [(''Ghost'', 1 :: rat), (''Shadow'', 7)]"
    by simp
  have so: "sale_of (JObj [(''Product'', JStr ''Shadow''), (''Quantity'', JNum 7)])
      = Some (''Shadow'', 7 :: rat)"
    by simp
  have l: "lookup_price [(''Apple'', 2), (''Pen'', 3 / 2 :: rat)] ''Shadow'' = None"
    by (simp add: lookup_price_def)
  have a: "\<forall>s \<in> set [(''Ghost'', 1 :: rat), (''Shadow'', 7)].
         lookup_price [(''Apple'', 2), (''Pen'', 3 / 2 :: rat)] (fst s) = None"
    by (simp add: lookup_price_def)
  from unmatched_isolation[OF c s so l, of example_python, THEN conjunct2] a
  have 4: "compute_total_cost example_python example_catalogue (JArr example_sales_unmatched)
       = ([warning_text ''Ghost'', warning_text ''Shadow''], Inr (0, 0, []))"
    unfolding u by simp
  have su: "sales_of (JArr example_sales_unmatched) = Some [(''Ghost'', 1), (''Shadow'', 7)]"
    unfolding u by simp
  show ?thesis
    by (rule conjI[OF c conjI[OF example_sales_repeated_typed conjI[OF sg conjI[OF g
          conjI[OF n conjI[OF 1 conjI[OF 2 conjI[OF 3 conjI[OF su conjI[OF l 4]]]]]]]]]])
qed

text \<open>
  The first sale raises \<^verbatim>\<open>OverflowError\<close> at line 70: the loop never reaches the sale of
  the product \<^verbatim>\<open>Ghost\<close>, which the catalogue does not have, and prints no warning for it.
\<close>

theorem unmatched_overflow_counterexample:
  "catalogue_of pen_catalogue = Some [(''Pen'', 3 / 2)]
   \<and> sales_of (JArr [large_sale, ghost_sale]) = Some [(''Pen'', large_quantity), (''Ghost'', 1)]
   \<and> lookup_price [(''Pen'', 3 / 2 :: rat)] ''Ghost'' = None
   \<and> compute_total_cost example_python pen_catalogue (JArr [large_sale, ghost_sale])
       = ([], Inl OverflowError)"
proof -
  have l: "lookup_price [(''Pen'', 3 / 2 :: rat)] ''Pen'' = Some (3 / 2)"
    by (simp add: lookup_price_def)
  have b: "those (map sale_of ([] :: rat json list)) = Some []" by simp
  have "compute_total_cost example_python pen_catalogue (JArr ([] @ large_sale # [ghost_sale]))
       = ([], Inl OverflowError)"
    using overflow_run[OF pen_catalogue_typed l b no_overflow_Nil, of "[ghost_sale]"]
    by (simp add: unmatched_products_def)
  then show ?thesis
    by (simp add: pen_catalogue_typed large_sale_def ghost_sale_def lookup_price_def)
qed

text \<open>
  C5, as the code has it. For a catalogue and a sales record of the input format, and a
  product that has a price and occurs in the record, once or several times: when none of
  the multiplications and additions of the sums raises, the product has exactly one entry
  in the mapping returned; its quantity is the sum of the quantities of its lines and its
  cost the sum of price times quantity over its lines, both taken from the first line on
  in the order of the record. When one raises, the function raises \<^verbatim>\<open>OverflowError\<close> and
  returns no mapping.
\<close>

theorem duplicate_accumulation:
  assumes "catalogue_of price_catalogue = Some C" and "sales_of sales_record = Some S"
    and "lookup_price C p = Some price" and "p \<in> fst ` set S"
  shows "if no_overflow py C S
         then \<exists>ws t_cost t_amount unitary.
                compute_total_cost py price_catalogue sales_record
                  = (ws, Inr (t_cost, t_amount, unitary))
              \<and> length (filter (\<lambda>e. fst e = KStr p) unitary) = 1
              \<and> map_of unitary (KStr p) =
                  Some (left_sum (map snd (lines_of p S)),
                        left_sum (map (\<lambda>s. price * snd s) (lines_of p S)))
         else \<exists>ws. compute_total_cost py price_catalogue sales_record
                = (ws, Inl OverflowError)"
proof -
  let ?M = "matched_sales C S"
  let ?ks = "first_occurrences (map fst ?M)"
  have lines: "lines_of p ?M = lines_of p S"
    using assms(3) by (auto simp: lines_of_def matched_sales_def intro!: filter_cong)
  have pin: "p \<in> set ?ks"
    using assms(3,4) by (auto simp: set_first_occurrences matched_sales_def)
  have cost: "map (line_cost C) (lines_of p S) = map (\<lambda>s. price * snd s) (lines_of p S)"
    using assms(3) by (auto simp: lines_of_def line_cost_def)
  have one: "length (filter (\<lambda>e. fst e = KStr p) (map (\<lambda>p. (KStr p, aggregate_of C ?M p)) ?ks)) = 1"
    using pin distinct_first_occurrences by (rule single_entry)
  show ?thesis
  proof (cases "no_overflow py C S")
    case True
    then show ?thesis
      using compute_total_cost_typed[OF assms(1,2), of py] pin one
      by (simp add: map_of_unitary aggregate_of_def lines cost)
  next
    case False
    then show ?thesis
      using compute_total_cost_typed[OF assms(1,2), of py] by auto
  qed
qed

theorem duplicate_accumulation_witness:
  "catalogue_of example_catalogue = Some [(''Apple'', 2), (''Pen'', 3 / 2)]
   \<and> sales_of example_sales_repeated = Some [(''Pen'', 2), (''Ghost'', 1), (''Apple'', 3), (''Pen'', 4)]
   \<and> lookup_price [(''Apple'', 2), (''Pen'', 3 / 2 :: rat)] ''Pen'' = Some (3 / 2)
   \<and> ''Pen'' \<in> fst ` set [(''Pen'', 2 :: rat), (''Ghost'', 1), (''Apple'', 3), (''Pen'', 4)]
   \<and> no_overflow example_python [(''Apple'', 2), (''Pen'', 3 / 2)]
        [(''Pen'', 2), (''Ghost'', 1), (''Apple'', 3), (''Pen'', 4)]
   \<and> (\<exists>ws t_cost t_amount unitary.
         compute_total_cost example_python example_catalogue example_sales_repeated
           = (ws, Inr (t_cost, t_amount, unitary))
         \<and> length (filter (\<lambda>e. fst e = KStr ''Pen'') unitary) = 1
         \<and> map_of unitary (KStr ''Pen'') = Some (2 + 4, 3 / 2 * 2 + 3 / 2 * 4))"
proof -
  note c = example_catalogue_typed and s = example_sales_repeated_typed
    and n = example_repeated_no_overflow
  have l: "lookup_price [(''Apple'', 2), (''Pen'', 3 / 2 :: rat)] ''Pen'' = Some (3 / 2)"
    by (simp add: lookup_price_def)
  have m: "''Pen'' \<in> fst ` set [(''Pen'', 2 :: rat), (''Ghost'', 1), (''Apple'', 3), (''Pen'', 4)]"
    by simp
  have ls: "lines_of ''Pen'' [(''Pen'', 2 :: rat), (''Ghost'', 1), (''Apple'', 3), (''Pen'', 4)]
      = [(''Pen'', 2), (''Pen'', 4)]"
    by (simp add: lines_of_def)
  show ?thesis
    using duplicate_accumulation[OF c s l m, of example_python, unfolded ls if_P[OF n]] c s l m n
    by simp
qed

text \<open>
  The second sale of the product raises \<^verbatim>\<open>OverflowError\<close> at line 70: the two sales are
  not accumulated into an entry, as no mapping is returned.
\<close>

theorem duplicate_overflow_counterexample:
  "catalogue_of pen_catalogue = Some [(''Pen'', 3 / 2)]
   \<and> sales_of (JArr [pen_sale, large_sale]) = Some [(''Pen'', 2), (''Pen'', large_quantity)]
   \<and> compute_total_cost example_python pen_catalogue (JArr [pen_sale, large_sale])
       = ([], Inl OverflowError)"
proof -
  have l: "lookup_price [(''Pen'', 3 / 2 :: rat)] ''Pen'' = Some (3 / 2)"
    by (simp add: lookup_price_def)
  have b: "those (map sale_of [pen_sale]) = Some [(''Pen'', 2)]"
    by (simp add: pen_sale_def)
  have n: "no_overflow example_python [(''Pen'', 3 / 2)] [(''Pen'', 2)]"
    by (simp add: no_overflow_def matched_sales_def lookup_price_def line_overflows_def
        line_cost_def example_python_def first_occurrences_def entry_ok_def lines_of_def
        small_no_overflow del: not_None_eq)
  have "compute_total_cost example_python pen_catalogue (JArr ([pen_sale] @ large_sale # []))
       = ([], Inl OverflowError)"
    using overflow_run[OF pen_catalogue_typed l b n, of "[]"]
    by (simp add: unmatched_products_def lookup_price_def)
  then show ?thesis
    by (simp add: pen_catalogue_typed large_sale_def pen_sale_def)
qed




section \<open>Runs over the two documents\<close>

lemma example_compute:
  "compute_total_cost example_python example_catalogue example_sales =
     ([warning_text ''Ghost''], Inr (9, 5, [(KStr ''Apple'', 3, 6), (KStr ''Pen'', 2, 3)]))"
  by (simp add: compute_total_cost_def example_catalogue_def example_sales_def sale_step_def
        init_totals_def warning_message_def str_key_def example_python_def small_no_overflow)

lemma example_renders:
  "report_str example_python 9 5 [(KStr ''Apple'', 3, 6), (KStr ''Pen'', 2, 3)] 0
     = Inr example_report"
proof -
  have "converts example_python 9 5 [(KStr ''Apple'', 3, 6), (KStr ''Pen'', 2, 3)]"
    by (simp add: converts_def str_key_def small_py_str small_fmt_2f)
  from report_str_converts[OF this, of 0] obtain report where
    "report_str example_python 9 5 [(KStr ''Apple'', 3, 6), (KStr ''Pen'', 2, 3)] 0 = Inr report" ..
  then show ?thesis
    by (simp add: example_report_def)
qed

lemma example_run:
  "main example_python example_argv example_files 0 0 =
     [Open_read ''priceCatalogue.json'', Open_read ''salesRecord.json'', Aggregate,
      Print (warning_text ''Ghost''),
      Print example_report, Write_file ''SalesResults.txt'' example_report]"
proof -
  have n: "example_catalogue \<noteq> JNull" "example_sales \<noteq> JNull"
    by (simp_all add: example_catalogue_def example_sales_def)
  have a: "length example_argv = 3" "example_argv ! 1 = ''priceCatalogue.json''"
    "example_argv ! 2 = ''salesRecord.json''"
    by (simp_all add: example_argv_def)
  have f: "example_files (example_argv ! 1) = Document example_catalogue"
    "example_files (example_argv ! 2) = Document example_sales"
    by (simp_all add: example_argv_def example_files_def)
  show ?thesis
    using main_on_documents[OF a(1) f(1) n(1) f(2) n(2), of example_python 0 0]
    by (simp add: example_argv_def example_compute example_renders)
qed




text \<open>
  C6, as the code has it. With two arguments, when opening the catalogue path raises
  \<^verbatim>\<open>FileNotFoundError\<close>, or parsing its content raises \<^verbatim>\<open>JSONDecodeError\<close>, the run prints the
  message that names the path and ends: \<^verbatim>\<open>compute_total_cost\<close> is not called and
  \<^verbatim>\<open>SalesResults.txt\<close> is not written. The same holds of the sales path when the catalogue
  path gave a document other than \<^verbatim>\<open>null\<close>.
\<close>

theorem load_failure_stops_run:
  assumes "length argv = 3"
    and "fs path = Missing \<or> fs path = Malformed"
    and "path = argv ! 1 \<or>
         (path = argv ! 2 \<and> (\<exists>doc. fs (argv ! 1) = Document doc \<and> doc \<noteq> JNull))"
  shows "main py argv fs start_time end_time =
           map Open_read (if path = argv ! 1 then [path] else [argv ! 1, path])
             @ [Print (if fs path = Missing then not_found_message path
                       else invalid_json_message path)]
       \<and> Aggregate \<notin> set (main py argv fs start_time end_time)
       \<and> file_written ''SalesResults.txt'' (main py argv fs start_time end_time) = None"
proof -
  have m: "main py argv fs start_time end_time =
           map Open_read (if path = argv ! 1 then [path] else [argv ! 1, path])
             @ [Print (if fs path = Missing then not_found_message path
                       else invalid_json_message path)]"
    using assms by (auto simp: main_def load_json_file_def)
  show ?thesis
    unfolding m by simp
qed

theorem load_failure_stops_run_witness:
  "length example_argv = 3
   \<and> example_files_no_sales ''salesRecord.json'' = Missing
   \<and> ''salesRecord.json'' = example_argv ! 2
   \<and> example_files_no_sales (example_argv ! 1) = Document example_catalogue
   \<and> example_catalogue \<noteq> JNull
   \<and> main example_python example_argv example_files_no_sales 0 0 =
       [Open_read ''priceCatalogue.json'', Open_read ''salesRecord.json'',
        Print (not_found_message ''salesRecord.json'')]"
proof -
  have 1: "length example_argv = 3" by (simp add: example_argv_def)
  have e: "example_files_no_sales ''salesRecord.json'' = Missing"
    "example_files_no_sales ''priceCatalogue.json'' = Document example_catalogue"
    by (simp_all add: example_files_no_sales_def)
  have n: "example_catalogue \<noteq> JNull"
    by (simp add: example_catalogue_def)
  have 2: "example_files_no_sales ''salesRecord.json'' = Missing
      \<or> example_files_no_sales ''salesRecord.json'' = Malformed"
    by (simp add: e)
  have 3: "''salesRecord.json'' = example_argv ! 1 \<or>
         (''salesRecord.json'' = example_argv ! 2 \<and>
          (\<exists>doc. example_files_no_sales (example_argv ! 1) = Document doc \<and> doc \<noteq> JNull))"
    by (simp add: example_argv_def e n)
  show ?thesis
    using load_failure_stops_run[OF 1 2 3, of example_python 0 0] n
    by (simp add: example_argv_def e)
qed

text \<open>
  A path that names a directory is a path that does not resolve to a readable file, and
  \<^verbatim>\<open>open\<close> raises \<^verbatim>\<open>IsADirectoryError\<close> on it, which \<^verbatim>\<open>load_json_file\<close> does not catch: the run
  ends with the exception and prints no message.
\<close>

theorem unreadable_path_counterexample:
  "example_files_directory ''.'' = Unreadable
   \<and> main example_python [''computeSales.py'', ''.'', ''salesRecord.json'']
        example_files_directory 0 0 = [Open_read ''.'', Raise OtherError]
   \<and> stdout_of (main example_python [''computeSales.py'', ''.'', ''salesRecord.json'']
        example_files_directory 0 0) = []"
  by (simp add: main_def load_json_file_def example_files_directory_def)

text \<open>
  C3, as the code has it. Whenever a run writes \<^verbatim>\<open>SalesResults.txt\<close>, the same text was
  printed just before, and the display stream holds the lines of the warnings and then
  the text of the file followed by one newline, which \<^verbatim>\<open>print\<close> adds.
\<close>

theorem display_is_file_and_newline:
  assumes "file_written ''SalesResults.txt'' (main py argv fs start_time end_time) = Some r"
  shows "\<exists>ks ws. map (warning_message py) ks = map Inr ws
           \<and> main py argv fs start_time end_time =
               [Open_read (argv ! 1), Open_read (argv ! 2), Aggregate] @ map Print ws
                 @ [Print r, Write_file ''SalesResults.txt'' r]
           \<and> stdout_of (main py argv fs start_time end_time)
               = concat (map (\<lambda>w. w @ newline) ws) @ r @ newline"
proof -
  from main_writes[OF assms] obtain price_catalogue sales_record ws t_cost t_amount u_cost
    where c: "compute_total_cost py price_catalogue sales_record
               = (ws, Inr (t_cost, t_amount, u_cost))"
      and m: "main py argv fs start_time end_time =
               [Open_read (argv ! 1), Open_read (argv ! 2), Aggregate] @ map Print ws
                 @ [Print r, Write_file ''SalesResults.txt'' r]"
    by blast
  from compute_total_cost_printed[OF c] obtain ks where
    k: "map (warning_message py) ks = map Inr ws" ..
  have "stdout_of ([Open_read (argv ! 1), Open_read (argv ! 2), Aggregate] @ map Print ws
         @ [Print r, Write_file ''SalesResults.txt'' r])
      = concat (map (\<lambda>w. w @ newline) ws) @ r @ newline"
    by (simp add: stdout_of_append stdout_of_prints)
  with k m show ?thesis by metis
qed

theorem display_is_file_and_newline_witness:
  "file_written ''SalesResults.txt'' (main example_python example_argv example_files 0 0)
     = Some example_report
   \<and> (\<exists>ws. stdout_of (main example_python example_argv example_files 0 0)
          = concat (map (\<lambda>w. w @ newline) ws) @ example_report @ newline)"
proof -
  have w: "file_written ''SalesResults.txt'' (main example_python example_argv example_files 0 0)
     = Some example_report"
    by (simp add: example_run)
  from display_is_file_and_newline[OF w] obtain ws where
    "stdout_of (main example_python example_argv example_files 0 0)
          = concat (map (\<lambda>w. w @ newline) ws) @ example_report @ newline"
    by (elim exE conjE)
  then have "\<exists>ws. stdout_of (main example_python example_argv example_files 0 0)
          = concat (map (\<lambda>w. w @ newline) ws) @ example_report @ newline" ..
  with w show ?thesis by (rule conjI)
qed

text \<open>
  The run on the example: the display stream holds the warning for the product
  \<^verbatim>\<open>Ghost\<close> and a final newline that the file does not hold.
\<close>

theorem display_equals_file_counterexample:
  "file_written ''SalesResults.txt'' (main example_python example_argv example_files 0 0)
     = Some example_report
   \<and> stdout_of (main example_python example_argv example_files 0 0)
     = warning_text ''Ghost'' @ newline @ example_report @ newline
   \<and> stdout_of (main example_python example_argv example_files 0 0) \<noteq> example_report"
proof -
  have ne: "warning_text ''Ghost'' @ newline @ example_report @ newline \<noteq> example_report"
  proof
    assume "warning_text ''Ghost'' @ newline @ example_report @ newline = example_report"
    then have "length (warning_text ''Ghost'' @ newline @ example_report @ newline)
        = length example_report"
      by (rule arg_cong)
    then show False
      by (simp add: newline_def)
  qed
  show ?thesis
    using ne by (simp add: example_run)
qed

section \<open>The row of the elapsed time\<close>
















section \<open>The order of the report\<close>







end
